theory Spec2Isabelle
  imports Complex_Main "HOL-Library.Multiset" "HOL-Library.Sublist"
begin

section \<open>Data model\<close>

subsection \<open>Arrays\<close>

text \<open>
  A numpy array is a shape (one extent per axis) and its entries, read by a multi-index.
  A scalar converted by \<open>np.asarray\<close> has the empty shape, a vector one extent, a
  matrix two. Floating-point numbers are modelled as reals.
\<close>

record ndarray =
  shape :: "nat list"
  entry :: "nat list \<Rightarrow> real"

definition ndim :: "ndarray \<Rightarrow> nat" where
  "ndim a = length (shape a)"

text \<open>\<open>a.T\<close> reverses the axes (and so leaves a vector as it is).\<close>

definition transpose_nd :: "ndarray \<Rightarrow> ndarray" where
  "transpose_nd a = \<lparr>shape = rev (shape a), entry = (\<lambda>idx. entry a (rev idx))\<rparr>"

text \<open>A matrix with \<open>m\<close> rows and \<open>n\<close> columns, given by its rows.\<close>

definition matrix :: "nat \<Rightarrow> nat \<Rightarrow> real list list \<Rightarrow> ndarray" where
  "matrix m n rws =
     \<lparr>shape = [m, n],
      entry = (\<lambda>idx. case idx of [i, j] \<Rightarrow> rws ! i ! j | _ \<Rightarrow> 0)\<rparr>"

definition vector :: "real list \<Rightarrow> ndarray" where
  "vector xs =
     \<lparr>shape = [length xs], entry = (\<lambda>idx. case idx of [i] \<Rightarrow> xs ! i | _ \<Rightarrow> 0)\<rparr>"

definition nrows :: "ndarray \<Rightarrow> nat" where
  "nrows a = (case shape a of m # _ \<Rightarrow> m | [] \<Rightarrow> 0)"

definition ncols :: "ndarray \<Rightarrow> nat" where
  "ncols a = (case shape a of _ # n # _ \<Rightarrow> n | _ \<Rightarrow> 0)"

text \<open>Column \<open>j\<close> of a matrix as a list: one of the two rows that \<open>x, y = pts.T\<close> unpacks.\<close>

definition column :: "ndarray \<Rightarrow> nat \<Rightarrow> real list" where
  "column a j = map (\<lambda>i. entry a [i, j]) [0..<nrows a]"

subsection \<open>Values that may be infinite\<close>

text \<open>
  The tangents are quotients in which a zero denominator gives \<open>+infinity\<close>
  (\<open>np.divide\<close> with \<open>out = np.full(.., np.inf)\<close> and \<open>where = (S != 0)\<close>).
\<close>

datatype xreal = Fin real | PInf | NInf | NaN

text \<open>\<open>x < t\<close> for a finite \<open>t\<close>: a comparison with \<open>nan\<close> is false.\<close>

fun xless :: "xreal \<Rightarrow> real \<Rightarrow> bool" where
  "xless (Fin x) t = (x < t)"
| "xless PInf t = False"
| "xless NInf t = True"
| "xless NaN t = False"

subsection \<open>Errors\<close>

text \<open>
  Every exception the modelled code can raise is a value. A \<open>ValueError\<close> carries the
  message the code formats, with the numbers the message prints.
\<close>

datatype message =
    BoundaryPtsShape
  | InteriorPtsShape
  | NonFiniteSVD
  | NonFiniteSVDAt real
  | ZeroMultiplicity real xreal real
  | DxDyBothOrNone
  | DxDyLength nat
  | RepeatedEigenvalue nat
  | MultiplicityMismatch nat nat
  | ShapeMismatch

datatype error =
    ValueError message
  | IndexError
  | AttributeError string
  | UnboundLocalError string
  | NameError string
  | TypeError string
  | LinAlgError

subsection \<open>The problem instance\<close>

text \<open>
  The attributes of a \<open>PolygonEVP\<close> object. The quadrature attributes are set by the
  constructor only when \<open>bdry_nodes\<close> is given: \<open>None\<close> stands for an attribute the
  object does not have. \<open>basis\<close> is the Fourier-Bessel basis evaluated on the default
  points, \<open>ordered_eigs_store\<close> is the attribute \<open>_ordered_eigs\<close>.
\<close>

record PolygonEVP =
  basis :: "real \<Rightarrow> ndarray"
  vertices :: ndarray
  n_vert :: nat
  orders :: "int list"
  boundary_pts :: ndarray
  interior_pts :: ndarray
  points :: ndarray
  edge_idx :: "nat list"
  rtol :: real
  mtol :: real
  bdry_nodes :: "ndarray option"
  bdry_weights :: "real list option"
  int_nodes :: "ndarray option"
  int_weights :: "real list option"
  nodes :: "ndarray option"
  weights :: "ndarray option"
  n_basis :: "(real \<Rightarrow> ndarray) option"
  area :: real
  perimiter :: real
  lambda_1_lb :: real
  ordered_eigs_store :: "real list"
  eigs_store :: "real list"

text \<open>Reading an attribute that may be missing.\<close>

definition getattr :: "string \<Rightarrow> 'a option \<Rightarrow> error + 'a" where
  "getattr name v = (case v of None \<Rightarrow> Inl (AttributeError name) | Some x \<Rightarrow> Inr x)"

subsection \<open>External collaborators of the constructor\<close>

text \<open>
  The basis construction and the geometry helpers live outside the modelled files
  (\<open>bases\<close>, \<open>utils\<close>, \<open>quad\<close>); the constructor takes them as parameters.
\<close>

record fourier_bessel =
  fb_vertices :: ndarray
  fb_n_vert :: nat
  fb_orders :: "int list"
  fb_eval :: "real list \<Rightarrow> real list \<Rightarrow> real \<Rightarrow> ndarray"

record collaborators =
  FourierBesselBasis :: "ndarray \<Rightarrow> int list \<Rightarrow> fourier_bessel"
  boundary_points :: "real list \<Rightarrow> real list \<Rightarrow> int \<Rightarrow> int list option \<Rightarrow> ndarray"
  boundary_nodes :: "ndarray \<Rightarrow> int \<Rightarrow> string \<Rightarrow> int list option \<Rightarrow> ndarray"
  interior_points :: "real list \<Rightarrow> real list \<Rightarrow> int \<Rightarrow> ndarray"
  edge_indices :: "ndarray \<Rightarrow> ndarray \<Rightarrow> nat list"
  polygon_area :: "real list \<Rightarrow> real list \<Rightarrow> real"
  polygon_perimiter :: "real list \<Rightarrow> real list \<Rightarrow> real"

text \<open>A point argument is an \<open>int\<close> (a number of points to generate) or an array.\<close>

datatype pts_arg = Count int | Coordinates ndarray

section \<open>The constructor\<close>

text \<open>
  Lines 36-43 and 50-56: the array is transposed when its first extent is 2, then
  rejected unless its second extent is 2 and it has two axes. Reading \<open>shape[0]\<close> or
  \<open>shape[1]\<close> of an array with too few axes raises \<open>IndexError\<close>; in
  \<open>shape[1] != 2 or ndim != 2\<close> the left operand is evaluated first.
\<close>

definition coordinate_array :: "message \<Rightarrow> ndarray \<Rightarrow> error + ndarray" where
  "coordinate_array which pts =
     (case shape pts of
        [] \<Rightarrow> Inl IndexError
      | s0 # _ \<Rightarrow>
          (let pts' = (if s0 = 2 then transpose_nd pts else pts) in
           (case shape pts' of
              _ # s1 # _ \<Rightarrow>
                if s1 \<noteq> 2 \<or> ndim pts' \<noteq> 2 then Inl (ValueError which) else Inr pts'
            | _ \<Rightarrow> Inl IndexError)))"

text \<open>
  Lines 25-30: with exactly one positive order, the two edges at that vertex are skipped
  (\<open>idx - 1\<close> may be \<open>-1\<close>).
\<close>

definition skip_edges :: "int list \<Rightarrow> int list option" where
  "skip_edges ords =
     (if length (filter (\<lambda>k. 0 < k) ords) = 1
      then (let idx = int (length (takeWhile (\<lambda>k. \<not> 0 < k) ords)) in Some [idx - 1, idx])
      else None)"

definition init ::
  "collaborators \<Rightarrow> ndarray \<Rightarrow> int list \<Rightarrow> pts_arg \<Rightarrow> pts_arg \<Rightarrow> string \<Rightarrow> string \<Rightarrow>
   ndarray option \<Rightarrow> real list option \<Rightarrow> ndarray option \<Rightarrow> real list option \<Rightarrow>
   error + PolygonEVP" where
  "init ext vertices' orders' boundary_pts' interior_pts' boundary_method interior_method
        bdry_nodes' bdry_weights' int_nodes' int_weights' =
     (let b = FourierBesselBasis ext vertices' orders';
          x_v = column (fb_vertices b) 0;
          y_v = column (fb_vertices b) 1;
          bp = (case boundary_pts' of
                  Count n \<Rightarrow>
                    (let skip = skip_edges (fb_orders b) in
                     if boundary_method = ''even''
                     then boundary_points ext x_v y_v n skip
                     else boundary_nodes ext vertices' n boundary_method skip)
                | Coordinates a \<Rightarrow> a)
      in
      (case coordinate_array BoundaryPtsShape bp of Inl e \<Rightarrow> Inl e | Inr bp' \<Rightarrow>
      (let ipts = (case interior_pts' of
                     Count n \<Rightarrow>
                       if interior_method = ''random''
                       then interior_points ext x_v y_v n
                       else \<lparr>shape = [], entry = (\<lambda>_. real_of_int n)\<rparr>
                   | Coordinates a \<Rightarrow> a)
       in case coordinate_array InteriorPtsShape ipts of Inl e \<Rightarrow> Inl e | Inr ip' \<Rightarrow>
      (let x = column bp' 0 @ column ip' 0;
           y = column bp' 1 @ column ip' 1;
           pts = transpose_nd (matrix 2 (length x) [x, y]);
           quad = (case bdry_nodes' of
                     None \<Rightarrow> Inr (None, None, None, None, None, None, None)
                   | Some bn \<Rightarrow>
                       (case (bdry_weights', int_nodes', int_weights') of
                          (Some bw, Some inn, Some iw) \<Rightarrow>
                            (let nds = matrix (nrows bn + nrows inn) 2
                                         (map (\<lambda>i. [entry bn [i, 0], entry bn [i, 1]]) [0..<nrows bn]
                                          @ map (\<lambda>i. [entry inn [i, 0], entry inn [i, 1]]) [0..<nrows inn]);
                                 qw = bw @ iw
                             in Inr (Some bn, Some bw, Some inn, Some iw, Some nds,
                                     Some (matrix (length qw) 1 (map (\<lambda>w. [sqrt w]) qw)),
                                     Some (fb_eval (FourierBesselBasis ext vertices' orders')
                                             (column nds 0) (column nds 1))))
                        | _ \<Rightarrow> Inl (ValueError ShapeMismatch)))
       in case quad of Inl e \<Rightarrow> Inl e
          | Inr (q_bn, q_bw, q_in, q_iw, q_nodes, q_weights, q_basis) \<Rightarrow>
      (let ar = polygon_area ext x_v y_v in
       Inr \<lparr>basis = fb_eval b x y,
            vertices = fb_vertices b,
            n_vert = fb_n_vert b,
            orders = fb_orders b,
            boundary_pts = bp',
            interior_pts = ip',
            points = pts,
            edge_idx = edge_indices ext pts (fb_vertices b),
            rtol = 0,
            mtol = 1 / 10 ^ 4,
            bdry_nodes = q_bn,
            bdry_weights = q_bw,
            int_nodes = q_in,
            int_weights = q_iw,
            nodes = q_nodes,
            weights = q_weights,
            n_basis = q_basis,
            area = ar,
            perimiter = polygon_perimiter ext x_v y_v,
            lambda_1_lb = 576 / 100 * pi / ar,
            ordered_eigs_store = [],
            eigs_store = []\<rparr>)))))"

section \<open>Numerical library\<close>

text \<open>
  The dense linear algebra (\<open>scipy.linalg\<close>, \<open>pygsvd\<close>) and \<open>invert_permutation\<close>
  and \<open>minsearch\<close> of \<open>utils\<close> are outside the modelled files: the operations take them
  as a record of functions. \<open>minsearch\<close> is called with the objective, the two ends of
  the bracket, the step and \<open>xtol\<close>, and returns the minima it found and the number of
  evaluations it made; an error of the objective passes through it. \<open>svd\<close> returns
  \<open>None\<close> where the library raises (the decomposition does not converge, or its input
  is refused); \<open>solve_triangular\<close> returns \<open>None\<close> where it raises on a singular
  matrix.
\<close>

record library =
  qr_pivoting :: "ndarray \<Rightarrow> ndarray \<times> ndarray \<times> nat list"
  qr_economic :: "ndarray \<Rightarrow> ndarray \<times> ndarray"
  svd :: "ndarray \<Rightarrow> (ndarray \<times> real list \<times> ndarray) option"
  solve_triangular :: "ndarray \<Rightarrow> ndarray \<Rightarrow> ndarray option"
  gsvd :: "ndarray \<Rightarrow> ndarray \<Rightarrow> real list \<times> real list \<times> ndarray"
  lstsq :: "ndarray \<Rightarrow> ndarray \<Rightarrow> ndarray"
  invert_permutation :: "nat list \<Rightarrow> nat list"
  minsearch ::
    "(real \<Rightarrow> error + xreal list) \<Rightarrow> real \<Rightarrow> real \<Rightarrow> real \<Rightarrow> real \<Rightarrow> error + real list \<times> nat"

subsection \<open>Slicing and arithmetic on arrays\<close>

text \<open>\<open>a[:r, :c]\<close>: slices are clipped to the array, they never raise.\<close>

definition slice2 :: "ndarray \<Rightarrow> nat \<Rightarrow> nat \<Rightarrow> ndarray" where
  "slice2 a r c = \<lparr>shape = [min r (nrows a), min c (ncols a)], entry = entry a\<rparr>"

text \<open>\<open>a[:r]\<close> and \<open>a[r:]\<close>.\<close>

definition rows_upto :: "ndarray \<Rightarrow> nat \<Rightarrow> ndarray" where
  "rows_upto a r = \<lparr>shape = [min r (nrows a), ncols a], entry = entry a\<rparr>"

definition rows_from :: "ndarray \<Rightarrow> nat \<Rightarrow> ndarray" where
  "rows_from a r =
     \<lparr>shape = [nrows a - r, ncols a],
      entry = (\<lambda>idx. case idx of i # rest \<Rightarrow> entry a ((i + min r (nrows a)) # rest) | [] \<Rightarrow> 0)\<rparr>"

text \<open>\<open>a[-k:]\<close> for \<open>k > 0\<close>: the last \<open>k\<close> rows, all of them when there are fewer.\<close>

definition last_rows :: "ndarray \<Rightarrow> nat \<Rightarrow> ndarray" where
  "last_rows a k = rows_from a (nrows a - k)"

text \<open>\<open>a[:, -k:]\<close> for \<open>k > 0\<close>.\<close>

definition last_cols :: "ndarray \<Rightarrow> nat \<Rightarrow> ndarray" where
  "last_cols a k = transpose_nd (last_rows (transpose_nd a) k)"

text \<open>\<open>np.abs(np.diag(R))\<close>.\<close>

definition abs_diag :: "ndarray \<Rightarrow> real list" where
  "abs_diag R = map (\<lambda>i. \<bar>entry R [i, i]\<bar>) [0..<min (nrows R) (ncols R)]"

text \<open>\<open>np.zeros((m, n))\<close> and \<open>np.eye(n)\<close>.\<close>

definition zeros :: "nat \<Rightarrow> nat \<Rightarrow> ndarray" where
  "zeros m n = \<lparr>shape = [m, n], entry = (\<lambda>_. 0)\<rparr>"

definition eye :: "nat \<Rightarrow> ndarray" where
  "eye n = \<lparr>shape = [n, n],
            entry = (\<lambda>idx. case idx of [i, j] \<Rightarrow> if i = j then 1 else 0 | _ \<Rightarrow> 0)\<rparr>"

text \<open>
  Broadcasting of an operand of shape \<open>sx\<close> to a target shape: the operand's axes are
  aligned to the right, and each extent is the target's or 1.
\<close>

definition broadcast_ok :: "nat list \<Rightarrow> nat list \<Rightarrow> bool" where
  "broadcast_ok sx target =
     (length sx \<le> length target \<and>
      list_all2 (\<lambda>a t. a = t \<or> a = 1) sx (drop (length target - length sx) target))"

definition broadcast_entry :: "ndarray \<Rightarrow> nat list \<Rightarrow> real" where
  "broadcast_entry x idx =
     entry x (map2 (\<lambda>a i. if a = 1 then 0 else i) (shape x)
                (drop (length idx - length (shape x)) idx))"

text \<open>\<open>w * a\<close> and \<open>a / w\<close> for a matrix \<open>a\<close> and a column \<open>w\<close> of weights.\<close>

definition times_weights :: "ndarray \<Rightarrow> ndarray \<Rightarrow> error + ndarray" where
  "times_weights w a =
     (if broadcast_ok (shape w) (shape a)
      then Inr \<lparr>shape = shape a, entry = (\<lambda>idx. broadcast_entry w idx * entry a idx)\<rparr>
      else Inl (ValueError ShapeMismatch))"

definition divide_weights :: "ndarray \<Rightarrow> ndarray \<Rightarrow> error + ndarray" where
  "divide_weights a w =
     (if broadcast_ok (shape w) (shape a)
      then Inr \<lparr>shape = shape a, entry = (\<lambda>idx. entry a idx / broadcast_entry w idx)\<rparr>
      else Inl (ValueError ShapeMismatch))"

text \<open>\<open>a @ b\<close> for matrices.\<close>

definition matmul :: "ndarray \<Rightarrow> ndarray \<Rightarrow> error + ndarray" where
  "matmul a b =
     (if ncols a = nrows b
      then Inr \<lparr>shape = [nrows a, ncols b],
                entry = (\<lambda>idx. case idx of
                           [i, j] \<Rightarrow> (\<Sum>k \<leftarrow> [0..<ncols a]. entry a [i, k] * entry b [k, j])
                         | _ \<Rightarrow> 0)\<rparr>
      else Inl (ValueError ShapeMismatch))"

text \<open>\<open>C[:k] = X\<close>: the value is broadcast to the rows it is assigned to.\<close>

definition assign_rows :: "ndarray \<Rightarrow> nat \<Rightarrow> ndarray \<Rightarrow> error + ndarray" where
  "assign_rows C k X =
     (let target = [min k (nrows C), ncols C] in
      if broadcast_ok (shape X) target
      then Inr \<lparr>shape = shape C,
                entry = (\<lambda>idx. case idx of
                           [i, j] \<Rightarrow> if i < min k (nrows C) then broadcast_entry X idx
                                     else entry C idx
                         | _ \<Rightarrow> entry C idx)\<rparr>
      else Inl (ValueError ShapeMismatch))"

text \<open>\<open>C[Pinv]\<close>: the rows of \<open>C\<close> picked by an index array.\<close>

definition take_rows :: "ndarray \<Rightarrow> nat list \<Rightarrow> error + ndarray" where
  "take_rows C idxs =
     (if list_all (\<lambda>i. i < nrows C) idxs
      then Inr \<lparr>shape = length idxs # tl (shape C),
                entry = (\<lambda>idx. case idx of i # rest \<Rightarrow> entry C ((idxs ! i) # rest) | [] \<Rightarrow> 0)\<rparr>
      else Inl IndexError)"

text \<open>\<open>np.divide(C, S, out=np.full(C.shape, np.inf), where=(S != 0))\<close>.\<close>

definition divide_where :: "real list \<Rightarrow> real list \<Rightarrow> xreal list" where
  "divide_where C S = map2 (\<lambda>c s. if s \<noteq> 0 then Fin (c / s) else PInf) C S"

section \<open>Subspace angles\<close>

text \<open>
  Lines 122-123 (and 144-145, 269-270, 299-300, 374-375): \<open>r\<close> is the list of the
  magnitudes of the diagonal of \<open>R\<close>, \<open>cutoff = (r > r[0] * rtol).sum()\<close>. Reading
  \<open>r[0]\<close> of an empty diagonal raises \<open>IndexError\<close>.
\<close>

definition rank_cutoff :: "real list \<Rightarrow> real \<Rightarrow> error + nat" where
  "rank_cutoff r rtol' =
     (case r of
        [] \<Rightarrow> Inl IndexError
      | r0 # _ \<Rightarrow> Inr (length (filter (\<lambda>x. r0 * rtol' < x) r)))"

text \<open>
  Lines 119-126: the orthonormal factor and the number of its columns that are kept.
\<close>

definition truncated_qr :: "library \<Rightarrow> ndarray \<Rightarrow> real \<Rightarrow> bool \<Rightarrow> error + ndarray \<times> nat" where
  "truncated_qr K A rtol' pivot =
     (if pivot
      then (case qr_pivoting K A of
              (Q, R, _) \<Rightarrow>
                (case rank_cutoff (abs_diag R) rtol' of
                   Inl e \<Rightarrow> Inl e
                 | Inr cutoff \<Rightarrow> Inr (Q, cutoff)))
      else (case qr_economic K A of (Q, R) \<Rightarrow> Inr (Q, ncols Q)))"

text \<open>
  Lines 128-132: the singular values of \<open>Q[:m_b, :cutoff]\<close>, reversed; whatever the
  decomposition raises is replaced by the \<open>ValueError\<close> that names \<open>lambda_\<close>.
\<close>

definition reversed_singular_values ::
  "library \<Rightarrow> ndarray \<Rightarrow> nat \<Rightarrow> nat \<Rightarrow> real \<Rightarrow> error + real list" where
  "reversed_singular_values K Q m_b cutoff lam =
     (case svd K (slice2 Q m_b cutoff) of
        None \<Rightarrow> Inl (ValueError (NonFiniteSVDAt lam))
      | Some (_, s, _) \<Rightarrow> Inr (rev s))"

definition subspace_sines ::
  "library \<Rightarrow> PolygonEVP \<Rightarrow> real \<Rightarrow> real option \<Rightarrow> bool \<Rightarrow> error + real list" where
  "subspace_sines K self lam rtol' pivot =
     (let rt = (case rtol' of None \<Rightarrow> rtol self | Some t \<Rightarrow> t);
          A = basis self lam;
          m_b = nrows (boundary_pts self)
      in case truncated_qr K A rt pivot of
           Inl e \<Rightarrow> Inl e
         | Inr (Q, cutoff) \<Rightarrow> reversed_singular_values K Q m_b cutoff lam)"

text \<open>
  Lines 134-154: the same on the quadrature nodes. \<open>self.weights\<close> is read first, then
  \<open>self.n_basis\<close>, then \<open>self.bdry_nodes\<close>.
\<close>

definition weighted_matrix :: "PolygonEVP \<Rightarrow> real \<Rightarrow> error + ndarray \<times> nat" where
  "weighted_matrix self lam =
     (case getattr ''weights'' (weights self) of Inl e \<Rightarrow> Inl e | Inr w \<Rightarrow>
      (case getattr ''n_basis'' (n_basis self) of Inl e \<Rightarrow> Inl e | Inr nb \<Rightarrow>
       (case times_weights w (nb lam) of Inl e \<Rightarrow> Inl e | Inr A \<Rightarrow>
        (case getattr ''bdry_nodes'' (bdry_nodes self) of Inl e \<Rightarrow> Inl e | Inr bn \<Rightarrow>
           Inr (A, nrows bn)))))"

definition weighted_subspace_sines ::
  "library \<Rightarrow> PolygonEVP \<Rightarrow> real \<Rightarrow> real option \<Rightarrow> bool \<Rightarrow> error + real list" where
  "weighted_subspace_sines K self lam rtol' pivot =
     (let rt = (case rtol' of None \<Rightarrow> rtol self | Some t \<Rightarrow> t)
      in case weighted_matrix self lam of
           Inl e \<Rightarrow> Inl e
         | Inr (A, m_b) \<Rightarrow>
             (case truncated_qr K A rt pivot of
                Inl e \<Rightarrow> Inl e
              | Inr (Q, cutoff) \<Rightarrow> reversed_singular_values K Q m_b cutoff lam))"

text \<open>
  Lines 156-163. The function has no parameter \<open>rtol\<close>, and its first statement,
  \<open>if rtol is None: rtol = self.rtol\<close>, assigns \<open>rtol\<close>: the name is a local variable of
  the function, which has no value when the condition reads it.
\<close>

definition read_local :: "string \<Rightarrow> 'a option \<Rightarrow> error + 'a" where
  "read_local name v = (case v of None \<Rightarrow> Inl (UnboundLocalError name) | Some x \<Rightarrow> Inr x)"

definition gsvd_subspace_tans :: "library \<Rightarrow> PolygonEVP \<Rightarrow> real \<Rightarrow> error + xreal list" where
  "gsvd_subspace_tans K self lam =
     (case read_local ''rtol'' (None :: real option option) of
        Inl e \<Rightarrow> Inl e
      | Inr rtol' \<Rightarrow>
          (let rt = (case rtol' of None \<Rightarrow> rtol self | Some t \<Rightarrow> t);
               A = basis self lam;
               m_b = nrows (boundary_pts self)
           in case gsvd K (rows_upto A m_b) (rows_from A m_b) of
                (C, S, _) \<Rightarrow> Inr (rev (divide_where C S))))"

text \<open>Lines 190-197: the sibling on the quadrature nodes, which has no such statement.\<close>

definition gsvd_weighted_subspace_tans ::
  "library \<Rightarrow> PolygonEVP \<Rightarrow> real \<Rightarrow> error + xreal list" where
  "gsvd_weighted_subspace_tans K self lam =
     (case weighted_matrix self lam of
        Inl e \<Rightarrow> Inl e
      | Inr (A, m_b) \<Rightarrow>
          (case gsvd K (rows_upto A m_b) (rows_from A m_b) of
             (C, S, _) \<Rightarrow> Inr (rev (divide_where C S))))"

text \<open>Lines 216-221: \<open>s[0]\<close> of the sines.\<close>

definition sigma :: "library \<Rightarrow> PolygonEVP \<Rightarrow> real \<Rightarrow> real option \<Rightarrow> bool \<Rightarrow> error + real" where
  "sigma K self lam rtol' pivot =
     (let rt = (case rtol' of None \<Rightarrow> rtol self | Some t \<Rightarrow> t)
      in case subspace_sines K self lam (Some rt) pivot of
           Inl e \<Rightarrow> Inl e
         | Inr s \<Rightarrow> (case s of [] \<Rightarrow> Inl IndexError | s0 # _ \<Rightarrow> Inr s0))"

section \<open>Eigenbasis coefficients\<close>

text \<open>
  Lines 308-311 (and 329-331, 384-386): the multiplicity is the number of values below
  \<open>mtol\<close>; when it is zero the message is formatted from \<open>lambda_\<close>, \<open>s[-1]\<close> and
  \<open>mtol\<close>, and reading \<open>s[-1]\<close> of an empty sequence raises \<open>IndexError\<close>.
\<close>

definition multiplicity :: "real \<Rightarrow> xreal list \<Rightarrow> real \<Rightarrow> error + nat" where
  "multiplicity lam s mtol' =
     (let mult' = length (filter (\<lambda>x. xless x mtol') s) in
      if mult' = 0
      then (if s = [] then Inl IndexError
            else Inl (ValueError (ZeroMultiplicity lam (last s) mtol')))
      else Inr mult')"

text \<open>Lines 288-316.\<close>

definition eigenbasis_coef ::
  "library \<Rightarrow> PolygonEVP \<Rightarrow> real \<Rightarrow> real option \<Rightarrow> real option \<Rightarrow> error + ndarray" where
  "eigenbasis_coef K self lam rtol' mtol' =
     (let rt = (case rtol' of None \<Rightarrow> rtol self | Some t \<Rightarrow> t);
          mt = (case mtol' of None \<Rightarrow> mtol self | Some t \<Rightarrow> t)
      in case weighted_matrix self lam of Inl e \<Rightarrow> Inl e | Inr (A, m_b) \<Rightarrow>
      (case qr_pivoting K A of (Q, R, P) \<Rightarrow>
      (let Pinv = invert_permutation K P in
       case rank_cutoff (abs_diag R) rt of Inl e \<Rightarrow> Inl e | Inr cutoff \<Rightarrow>
      (case svd K (slice2 Q m_b cutoff) of
         None \<Rightarrow> Inl (ValueError NonFiniteSVD)
       | Some (_, s, Vh) \<Rightarrow>
      (case multiplicity lam (map Fin s) mt of Inl e \<Rightarrow> Inl e | Inr mult' \<Rightarrow>
      (let C = zeros (ncols A) mult' in
       case solve_triangular K (slice2 R cutoff cutoff) (transpose_nd (last_rows Vh mult')) of
         None \<Rightarrow> Inl LinAlgError
       | Some X \<Rightarrow>
      (case assign_rows C cutoff X of Inl e \<Rightarrow> Inl e | Inr C' \<Rightarrow> take_rows C' Pinv)))))))"

text \<open>Lines 318-334.\<close>

definition gsvd_eigenbasis_coef ::
  "library \<Rightarrow> PolygonEVP \<Rightarrow> real \<Rightarrow> real option \<Rightarrow> error + ndarray" where
  "gsvd_eigenbasis_coef K self lam mtol' =
     (let mt = (case mtol' of None \<Rightarrow> mtol self | Some t \<Rightarrow> t)
      in case weighted_matrix self lam of Inl e \<Rightarrow> Inl e | Inr (A, m_b) \<Rightarrow>
      (case gsvd K (rows_upto A m_b) (rows_from A m_b) of (C, S, X) \<Rightarrow>
      (let s = divide_where C S in
       case multiplicity lam s mt of Inl e \<Rightarrow> Inl e | Inr mult' \<Rightarrow>
         Inr (lstsq K (transpose_nd X) (last_cols (eye (nrows (transpose_nd X))) mult')))))"

text \<open>Lines 363-388.\<close>

definition eigenbasis_node_eval ::
  "library \<Rightarrow> PolygonEVP \<Rightarrow> real \<Rightarrow> real option \<Rightarrow> real option \<Rightarrow> error + ndarray" where
  "eigenbasis_node_eval K self lam rtol' mtol' =
     (let rt = (case rtol' of None \<Rightarrow> rtol self | Some t \<Rightarrow> t);
          mt = (case mtol' of None \<Rightarrow> mtol self | Some t \<Rightarrow> t)
      in case weighted_matrix self lam of Inl e \<Rightarrow> Inl e | Inr (A, m_b) \<Rightarrow>
      (case qr_pivoting K A of (Q, R, _) \<Rightarrow>
      (case rank_cutoff (abs_diag R) rt of Inl e \<Rightarrow> Inl e | Inr cutoff \<Rightarrow>
      (case svd K (slice2 Q m_b cutoff) of
         None \<Rightarrow> Inl (ValueError NonFiniteSVD)
       | Some (_, s, Vh) \<Rightarrow>
      (case multiplicity lam (map Fin s) mt of Inl e \<Rightarrow> Inl e | Inr mult' \<Rightarrow>
      (case matmul (slice2 Q (nrows Q) cutoff) (transpose_nd (last_rows Vh mult')) of
         Inl e \<Rightarrow> Inl e
       | Inr V \<Rightarrow>
      (case getattr ''weights'' (weights self) of Inl e \<Rightarrow> Inl e | Inr w \<Rightarrow>
         divide_weights V w)))))))"

section \<open>Shape derivative\<close>

datatype derivative = Gradient "real list" "real list" | Directional real | Eigenvalues "real list"

text \<open>
  Lines 455-487. After the checks of \<open>dx\<close> and \<open>dy\<close>, line 467 evaluates the arguments of
  \<open>self.sigma(lambda_, rtol, btol, mult_check=True)\<close>. The name \<open>btol\<close> is neither a
  parameter nor a local variable, so it is looked up among the names of the module
  (\<open>module_globals\<close>, which holds what \<open>from .utils import *\<close> binds): unbound, the lookup
  raises \<open>NameError\<close>; bound, the call raises \<open>TypeError\<close>, since \<open>sigma\<close> of lines 216-221
  has no parameter \<open>mult_check\<close>. No statement after line 467 is ever reached, which is
  why the rest of the body has no counterpart here.
\<close>

definition direction_check :: "PolygonEVP \<Rightarrow> ndarray option \<Rightarrow> ndarray option \<Rightarrow> error + unit" where
  "direction_check self dx dy =
     (if (dx = None) \<noteq> (dy = None) then Inl (ValueError DxDyBothOrNone)
      else (case (dx, dy) of
              (Some dxa, Some dya) \<Rightarrow>
                (case shape dxa of
                   [] \<Rightarrow> Inl IndexError
                 | d0 # _ \<Rightarrow>
                     if d0 \<noteq> n_vert self then Inl (ValueError (DxDyLength (n_vert self)))
                     else (case shape dya of
                             [] \<Rightarrow> Inl IndexError
                           | e0 # _ \<Rightarrow>
                               if e0 \<noteq> n_vert self
                               then Inl (ValueError (DxDyLength (n_vert self)))
                               else Inr ()))
            | _ \<Rightarrow> Inr ()))"

definition dlambda ::
  "(string \<Rightarrow> real option) \<Rightarrow> library \<Rightarrow> PolygonEVP \<Rightarrow> real \<Rightarrow> ndarray option \<Rightarrow> ndarray option \<Rightarrow>
   nat \<Rightarrow> real option \<Rightarrow> real option \<Rightarrow> error + derivative" where
  "dlambda module_globals K self lam dx dy n rtol' mtol' =
     (let rt = (case rtol' of None \<Rightarrow> rtol self | Some t \<Rightarrow> t);
          mt = (case mtol' of None \<Rightarrow> mtol self | Some t \<Rightarrow> t)
      in case direction_check self dx dy of
           Inl e \<Rightarrow> Inl e
         | Inr _ \<Rightarrow>
             (case module_globals ''btol'' of
                None \<Rightarrow> Inl (NameError ''btol'')
              | Some btol \<Rightarrow> Inl (TypeError ''mult_check'')))"

section \<open>Eigenvalue search\<close>

text \<open>Lines 96-102: the registry is read sorted and stored sorted.\<close>

definition ordered_eigs :: "PolygonEVP \<Rightarrow> real list" where
  "ordered_eigs self = sort (ordered_eigs_store self)"

definition set_ordered_eigs :: "PolygonEVP \<Rightarrow> real list \<Rightarrow> PolygonEVP" where
  "set_ordered_eigs self arr = self\<lparr>ordered_eigs_store := sort arr\<rparr>"

text \<open>Lines 575-578.\<close>

definition weyl_k :: "PolygonEVP \<Rightarrow> nat \<Rightarrow> real" where
  "weyl_k self k =
     (let A = area self; P = perimiter self
      in ((P + sqrt (P\<^sup>2 + 16 * pi * A * real k)) / (2 * A))\<^sup>2)"

text \<open>
  Lines 491-494: the tangents of the two smallest angles. A sine of 1 gives an infinite
  tangent, a sine beyond 1 gives \<open>nan\<close>.
\<close>

definition tangent :: "real \<Rightarrow> xreal" where
  "tangent s =
     (if s\<^sup>2 < 1 then Fin (s / sqrt (1 - s\<^sup>2))
      else if s = 1 then PInf else if s = - 1 then NInf else NaN)"

definition obj :: "library \<Rightarrow> PolygonEVP \<Rightarrow> real \<Rightarrow> error + xreal list" where
  "obj K self x =
     (case subspace_sines K self x None True of
        Inl e \<Rightarrow> Inl e
      | Inr sines \<Rightarrow> Inr (map tangent (take 2 sines)))"

text \<open>
  Lines 529-541: each minimum is given a multiplicity (the number of sines below
  \<open>ytol\<close>), compared with the registry, and appended \<open>mult\<close> times when it is new; the
  loop stops as soon as the registry holds \<open>k\<close> entries.
\<close>

fun confirm_minima ::
  "library \<Rightarrow> PolygonEVP \<Rightarrow> int \<Rightarrow> real \<Rightarrow> real \<Rightarrow> real list \<Rightarrow> error + PolygonEVP" where
  "confirm_minima K self k xtol ytol [] = Inr self"
| "confirm_minima K self k xtol ytol (x_min # rest) =
     (case subspace_sines K self x_min None True of
        Inl e \<Rightarrow> Inl e
      | Inr sines \<Rightarrow>
          (let mult' = length (filter (\<lambda>s. s < ytol) sines);
               is_duplicate =
                 (if length (ordered_eigs self) > 0
                  then Min (set (map (\<lambda>e. \<bar>x_min - e\<bar>) (ordered_eigs self))) < xtol
                  else False)
           in if \<not> is_duplicate \<and> mult' > 0
              then (let self' = set_ordered_eigs self (ordered_eigs self @ replicate mult' x_min)
                    in if int (length (ordered_eigs self')) \<ge> k then Inr self'
                       else confirm_minima K self' k xtol ytol rest)
              else confirm_minima K self k xtol ytol rest))"

text \<open>
  Lines 516-518: the index of the Weyl estimate is raised while the estimate, plus the
  margin \<open>1e8 * xtol\<close>, is below the start.
\<close>

partial_function (option) escalate ::
  "PolygonEVP \<Rightarrow> nat \<Rightarrow> real \<Rightarrow> real \<Rightarrow> nat \<Rightarrow> real \<Rightarrow> (real \<times> nat) option" where
  "escalate self k_current xtol start lev end' =
     (if end' + 10 ^ 8 * xtol < start
      then escalate self k_current xtol start (lev + 1) (weyl_k self (k_current + (lev + 1)))
      else Some (end', lev))"

text \<open>
  Lines 501-522: the start, the end, the level and the step of a scan. \<open>extend\<close>, \<open>start\<close>,
  \<open>end\<close> and \<open>lev\<close> are the local variables as the previous pass left them.
\<close>

definition scan_window ::
  "PolygonEVP \<Rightarrow> real \<Rightarrow> bool \<Rightarrow> real \<Rightarrow> real \<Rightarrow> nat \<Rightarrow> (real \<times> real \<times> nat \<times> real) option" where
  "scan_window self xtol extend' start end' lev =
     (let k_current = length (ordered_eigs self);
          start1 = (if extend' then start
                    else if k_current = 0 then lambda_1_lb self
                    else ordered_eigs self ! (k_current - 1))
      in case (if \<not> extend'
               then escalate self k_current xtol start1 1 (weyl_k self (k_current + 1))
               else Some (end', lev)) of
           None \<Rightarrow> None
         | Some (end1, lev1) \<Rightarrow>
             (let n_pts = 20 * lev1; h = (end1 - start1) / real n_pts
              in Some (start1, end1, lev1, h)))"

text \<open>
  Lines 500-550, for \<open>verbose = False\<close> (what the loop prints is not modelled). The state
  is the object and the local variables \<open>fevals\<close>, \<open>extend\<close>, \<open>start\<close>, \<open>end\<close>, \<open>lev\<close>.
  The loop has no bound: a search that never finds \<open>k\<close> eigenvalues is the value \<open>None\<close>.
\<close>

partial_function (option) solve_loop ::
  "library \<Rightarrow> real \<Rightarrow> real \<Rightarrow> int \<Rightarrow> PolygonEVP \<times> nat \<times> bool \<times> real \<times> real \<times> nat \<Rightarrow>
   (error + PolygonEVP \<times> nat) option" where
  "solve_loop K xtol ytol k st =
     (case st of (self, fevals, extend', start, end', lev) \<Rightarrow>
      if int (length (ordered_eigs self)) < k
      then (let k_current = length (ordered_eigs self) in
            case scan_window self xtol extend' start end' lev of
              None \<Rightarrow> None
            | Some (start1, end1, lev1, h) \<Rightarrow>
                (let start2 = (if k_current \<noteq> 0 then start1 - h else start1) in
                 case minsearch K (obj K self) start2 (end1 + h) h xtol of
                   Inl e \<Rightarrow> Some (Inl e)
                 | Inr (minima, fe) \<Rightarrow>
                     (case confirm_minima K self k xtol ytol minima of
                        Inl e \<Rightarrow> Some (Inl e)
                      | Inr self' \<Rightarrow>
                          if length (ordered_eigs self') = k_current
                          then solve_loop K xtol ytol k
                                 (self', fevals + fe, True, end1, end1 + (end1 - start2), lev1)
                          else solve_loop K xtol ytol k
                                 (self', fevals + fe, False, start2, end1, lev1))))
      else Some (Inr (self, fevals)))"

text \<open>
  Lines 489-551: the call returns the object with its registry, the sorted registry and
  the number of evaluations. Before the first pass \<open>extend\<close> is false, so that the pass
  assigns \<open>start\<close>, \<open>end\<close> and \<open>lev\<close> before it reads them.
\<close>

definition solve_ordered_eigs ::
  "library \<Rightarrow> PolygonEVP \<Rightarrow> int \<Rightarrow> real \<Rightarrow> real \<Rightarrow> (error + PolygonEVP \<times> real list \<times> nat) option" where
  "solve_ordered_eigs K self k xtol ytol =
     (case solve_loop K xtol ytol k (self, 0, False, 0, 0, 1) of
        None \<Rightarrow> None
      | Some (Inl e) \<Rightarrow> Some (Inl e)
      | Some (Inr (self', fevals)) \<Rightarrow> Some (Inr (self', ordered_eigs self', fevals)))"

section \<open>An instance on the unit square\<close>

text \<open>
  A small instance on which the operations can be evaluated: the unit square (area 1,
  perimeter 4), one boundary point, one interior point and one basis function, which
  vanishes at the boundary point for \<open>lambda = lam_a = 5.7 pi\<close> and
  \<open>lambda = lam_b = 5.8 pi\<close> and at
  the interior point elsewhere. \<open>demo_lib\<close> is a library that is right on the matrices
  this instance produces: matrices of one column and empty matrices (for which it
  returns empty factors). Its \<open>minsearch\<close> returns the zeros of the objective that lie in
  the bracket it is given.
\<close>

definition column_norm :: "ndarray \<Rightarrow> real" where
  "column_norm A = sqrt (\<Sum>i \<leftarrow> [0..<nrows A]. (entry A [i, 0])\<^sup>2)"

definition demo_qr_pivoting :: "ndarray \<Rightarrow> ndarray \<times> ndarray \<times> nat list" where
  "demo_qr_pivoting A =
     (if nrows A = 0 \<or> ncols A = 0
      then (zeros (nrows A) 0, zeros 0 (ncols A), [0..<ncols A])
      else if column_norm A = 0
      then (matrix (nrows A) 1 (map (\<lambda>i. [if i = 0 then 1 else 0]) [0..<nrows A]),
            matrix 1 1 [[0]], [0])
      else (\<lparr>shape = [nrows A, 1], entry = (\<lambda>idx. entry A idx / column_norm A)\<rparr>,
            matrix 1 1 [[column_norm A]], [0]))"

definition demo_svd :: "ndarray \<Rightarrow> (ndarray \<times> real list \<times> ndarray) option" where
  "demo_svd M =
     (if nrows M = 0 \<or> ncols M = 0 then Some (eye (nrows M), [], eye (ncols M))
      else if shape M = [1, 1]
      then Some (matrix 1 1 [[if entry M [0, 0] < 0 then - 1 else 1]],
                 [\<bar>entry M [0, 0]\<bar>], matrix 1 1 [[1]])
      else None)"

definition demo_solve_triangular :: "ndarray \<Rightarrow> ndarray \<Rightarrow> ndarray option" where
  "demo_solve_triangular T B =
     (if shape T = [1, 1] \<and> entry T [0, 0] \<noteq> 0
      then Some \<lparr>shape = shape B, entry = (\<lambda>idx. entry B idx / entry T [0, 0])\<rparr>
      else None)"

definition lam_a :: real where
  "lam_a = 57 / 10 * pi"

definition lam_b :: real where
  "lam_b = 58 / 10 * pi"

definition demo_minsearch ::
  "(real \<Rightarrow> error + xreal list) \<Rightarrow> real \<Rightarrow> real \<Rightarrow> real \<Rightarrow> real \<Rightarrow> error + real list \<times> nat" where
  "demo_minsearch f a b h xtol =
     Inr (filter (\<lambda>x. a \<le> x \<and> x \<le> b) [lam_a, lam_b], 0)"

definition demo_lib :: library where
  "demo_lib =
     \<lparr>qr_pivoting = demo_qr_pivoting,
      qr_economic = (\<lambda>A. case demo_qr_pivoting A of (Q, R, _) \<Rightarrow> (Q, R)),
      svd = demo_svd,
      solve_triangular = demo_solve_triangular,
      gsvd = (\<lambda>A B. ([], [], zeros 0 0)),
      lstsq = (\<lambda>A B. B),
      invert_permutation = (\<lambda>P. map (\<lambda>i. length (takeWhile (\<lambda>j. j \<noteq> i) P)) [0..<length P]),
      minsearch = demo_minsearch\<rparr>"

definition demo_basis :: "real \<Rightarrow> ndarray" where
  "demo_basis lam =
     (if lam = lam_a \<or> lam = lam_b
      then matrix 2 1 [[0], [1]] else matrix 2 1 [[1], [0]])"

definition unit_square :: ndarray where
  "unit_square = matrix 4 2 [[0, 0], [1, 0], [1, 1], [0, 1]]"

definition demo_ext :: collaborators where
  "demo_ext =
     \<lparr>FourierBesselBasis =
        (\<lambda>v ords. \<lparr>fb_vertices = v, fb_n_vert = nrows v, fb_orders = ords,
                    fb_eval = (\<lambda>x y. demo_basis)\<rparr>),
      boundary_points = (\<lambda>x y n skip. matrix 1 2 [[1 / 2, 0]]),
      boundary_nodes = (\<lambda>v n rule skip. matrix 1 2 [[1 / 2, 0]]),
      interior_points = (\<lambda>x y n. matrix 1 2 [[1 / 2, 1 / 2]]),
      edge_indices = (\<lambda>p v. [0]),
      polygon_area = (\<lambda>x y. 1),
      polygon_perimiter = (\<lambda>x y. 4)\<rparr>"

definition demo_evp :: PolygonEVP where
  "demo_evp =
     \<lparr>basis = demo_basis,
      vertices = unit_square,
      n_vert = 4,
      orders = [1, 1, 1, 1],
      boundary_pts = matrix 1 2 [[1 / 2, 0]],
      interior_pts = matrix 1 2 [[1 / 2, 1 / 2]],
      points = transpose_nd (matrix 2 2 [[1 / 2, 1 / 2], [0, 1 / 2]]),
      edge_idx = [0],
      rtol = 0,
      mtol = 1 / 10 ^ 4,
      bdry_nodes = None,
      bdry_weights = None,
      int_nodes = None,
      int_weights = None,
      nodes = None,
      weights = None,
      n_basis = None,
      area = 1,
      perimiter = 4,
      lambda_1_lb = 576 / 100 * pi / 1,
      ordered_eigs_store = [],
      eigs_store = []\<rparr>"

text \<open>The same instance with the quadrature attributes set.\<close>

definition demo_quad_evp :: PolygonEVP where
  "demo_quad_evp =
     demo_evp\<lparr>bdry_nodes := Some (matrix 1 2 [[1 / 2, 0]]),
              bdry_weights := Some [1],
              int_nodes := Some (matrix 1 2 [[1 / 2, 1 / 2]]),
              int_weights := Some [1],
              nodes := Some (matrix 2 2 [[1 / 2, 0], [1 / 2, 1 / 2]]),
              weights := Some (matrix 2 1 [[1], [1]]),
              n_basis := Some demo_basis\<rparr>"

text \<open>The instance with the registry \<open>st\<close>: \<open>found []\<close> is the instance as constructed.\<close>

definition found :: "real list \<Rightarrow> PolygonEVP" where
  "found st = demo_evp\<lparr>ordered_eigs_store := st\<rparr>"

section \<open>An instance with two basis functions\<close>

text \<open>
  The unit square again, with two boundary points, two interior points and two basis
  functions. The columns of the basis matrix are orthogonal, of norms 2 and 1, so that
  its pivoted QR factorisation is known in closed form: \<open>Q\<close> holds the normalised
  columns, \<open>R\<close> is the diagonal matrix of the norms and no column is moved.
  \<open>ortho_qr\<close> is this factorisation; it is right on matrices whose columns are
  orthogonal, not zero, and in order of decreasing norm. \<open>diag_svd\<close> is the singular
  value decomposition of a block whose only non-zero entries are on its diagonal, where
  they are non-negative and in decreasing order (and of an empty block, which has no
  singular value). \<open>strict_svd\<close> is the same decomposition in a library that refuses an
  empty block.
\<close>

definition column_norm_at :: "ndarray \<Rightarrow> nat \<Rightarrow> real" where
  "column_norm_at A j = sqrt (\<Sum>i \<leftarrow> [0..<nrows A]. (entry A [i, j])\<^sup>2)"

definition ortho_qr :: "ndarray \<Rightarrow> ndarray \<times> ndarray \<times> nat list" where
  "ortho_qr A =
     (\<lparr>shape = [nrows A, ncols A],
       entry = (\<lambda>idx. case idx of [i, j] \<Rightarrow> entry A [i, j] / column_norm_at A j | _ \<Rightarrow> 0)\<rparr>,
      \<lparr>shape = [ncols A, ncols A],
       entry = (\<lambda>idx. case idx of [i, j] \<Rightarrow> if i = j then column_norm_at A j else 0
                      | _ \<Rightarrow> 0)\<rparr>,
      [0..<ncols A])"

definition diag_svd :: "ndarray \<Rightarrow> (ndarray \<times> real list \<times> ndarray) option" where
  "diag_svd M =
     Some (eye (nrows M), map (\<lambda>i. entry M [i, i]) [0..<min (nrows M) (ncols M)],
           eye (ncols M))"

definition strict_svd :: "ndarray \<Rightarrow> (ndarray \<times> real list \<times> ndarray) option" where
  "strict_svd M = (if nrows M = 0 \<or> ncols M = 0 then None else diag_svd M)"

definition ortho_lib :: library where
  "ortho_lib =
     demo_lib\<lparr>qr_pivoting := ortho_qr,
              qr_economic := (\<lambda>A. case ortho_qr A of (Q, R, _) \<Rightarrow> (Q, R)),
              svd := diag_svd\<rparr>"

definition ortho_basis :: "real \<Rightarrow> ndarray" where
  "ortho_basis lam = matrix 4 2 [[6 / 5, 0], [0, 0], [8 / 5, 0], [0, 1]]"

definition ortho_evp :: PolygonEVP where
  "ortho_evp =
     demo_evp\<lparr>basis := ortho_basis,
              boundary_pts := matrix 2 2 [[1 / 2, 0], [1, 1 / 2]],
              interior_pts := matrix 2 2 [[1 / 2, 1 / 2], [1 / 4, 1 / 4]],
              points := transpose_nd (matrix 2 4 [[1 / 2, 1, 1 / 2, 1 / 4],
                                                  [0, 1 / 2, 1 / 2, 1 / 4]]),
              edge_idx := [0, 1]\<rparr>"

section \<open>Properties\<close>

subsection \<open>Evaluation on the unit square\<close>

lemma upt2: "[0..<2] = [0, Suc 0]"
  by (simp add: numeral_2_eq_2)

lemma demo_sines:
  "subspace_sines demo_lib demo_evp x None True =
     Inr [if x = lam_a \<or> x = lam_b then 0 else 1]"
  by (simp add: subspace_sines_def truncated_qr_def reversed_singular_values_def demo_lib_def
      demo_evp_def demo_basis_def demo_qr_pivoting_def demo_svd_def column_norm_def matrix_def
      nrows_def ncols_def abs_diag_def rank_cutoff_def slice2_def upt2 Let_def)

text \<open>The constructor builds this instance from the square and the two points.\<close>

lemma demo_init:
  "init demo_ext unit_square [1, 1, 1, 1] (Coordinates (matrix 1 2 [[1 / 2, 0]]))
     (Coordinates (matrix 1 2 [[1 / 2, 1 / 2]])) ''even'' ''random'' None None None None
   = Inr demo_evp"
  by (simp add: init_def demo_ext_def demo_evp_def coordinate_array_def Let_def ndim_def
      column_def nrows_def unit_square_def matrix_def numeral_2_eq_2)

subsection \<open>The constructor's check of the point arrays\<close>

lemma coordinate_array_vector:
  "shape a = [n] \<Longrightarrow> coordinate_array which a = Inl IndexError"
  by (simp add: coordinate_array_def transpose_nd_def Let_def)

lemma coordinate_array_scalar:
  "shape a = [] \<Longrightarrow> coordinate_array which a = Inl IndexError"
  by (simp add: coordinate_array_def)

text \<open>
  An array with two axes or more is accepted with its shape \<open>(m, 2)\<close> or rejected with
  the \<open>ValueError\<close> that names it.
\<close>

lemma coordinate_array_two_axes:
  assumes "2 \<le> length (shape a)"
  shows "(\<exists>b m. coordinate_array which a = Inr b \<and> shape b = [m, 2]) \<or>
         coordinate_array which a = Inl (ValueError which)"
proof (cases "shape a")
  case Nil
  with assms show ?thesis by simp
next
  case (Cons s0 rest)
  with assms obtain s1 rest' where sh: "shape a = s0 # s1 # rest'"
    by (cases rest) auto
  show ?thesis
  proof (cases "s0 = 2")
    case False
    with sh show ?thesis
      by (cases rest') (auto simp: coordinate_array_def Let_def ndim_def)
  next
    case True
    have "rev (shape a) \<noteq> []" "length (rev (shape a)) \<ge> 2" using sh by auto
    then obtain t0 t1 rest'' where r: "rev (shape a) = t0 # t1 # rest''"
      by (cases "rev (shape a)"; cases "tl (rev (shape a))") auto
    have len: "length rest'' = length rest'"
      using arg_cong [OF r, of length] sh by simp
    with True sh r show ?thesis
      by (cases rest'') (auto simp: coordinate_array_def Let_def ndim_def transpose_nd_def)
  qed
qed

text \<open>
  C9. A point array with a single axis is not rejected with the \<open>ValueError\<close> that names
  it: reading \<open>shape[1]\<close> raises \<open>IndexError\<close> before \<open>ndim\<close> is compared, for
  \<open>boundary_pts\<close> and, when \<open>boundary_pts\<close> is well formed, for \<open>interior_pts\<close>. No
  instance is created.
\<close>

theorem init_one_axis_IndexError:
  assumes "shape a = [n]"
  shows "init ext v ords (Coordinates a) ip bm im bn bw inn iw = Inl IndexError \<and>
         (\<forall>bp bp'. coordinate_array BoundaryPtsShape bp = Inr bp' \<longrightarrow>
            init ext v ords (Coordinates bp) (Coordinates a) bm im bn bw inn iw
              = Inl IndexError)"
  using assms by (simp add: init_def Let_def coordinate_array_vector)

theorem init_one_axis_IndexError_witness:
  "init demo_ext unit_square [1, 1, 1, 1] (Coordinates (vector [0, 1 / 2, 1]))
     (Coordinates (matrix 1 2 [[1 / 2, 1 / 2]])) ''even'' ''random'' None None None None
   = Inl IndexError \<and>
   init demo_ext unit_square [1, 1, 1, 1] (Coordinates (matrix 1 2 [[1 / 2, 0]]))
     (Coordinates (vector [0, 1 / 2, 1])) ''even'' ''random'' None None None None
   = Inl IndexError"
proof -
  have v: "shape (vector [0, 1 / 2, 1]) = [3]" by (simp add: vector_def)
  have c: "coordinate_array BoundaryPtsShape (matrix 1 2 [[1 / 2, 0]])
             = Inr (matrix 1 2 [[1 / 2, 0]])"
    by (simp add: coordinate_array_def matrix_def ndim_def)
  from init_one_axis_IndexError [OF v] c show ?thesis by blast
qed

subsection \<open>Operations that always raise\<close>

text \<open>
  C7. \<open>gsvd_subspace_tans\<close> returns no tangents: for every instance and every
  \<open>lambda\<close> it raises \<open>UnboundLocalError\<close> on its first statement.
\<close>

theorem gsvd_subspace_tans_raises:
  "gsvd_subspace_tans K self lam = Inl (UnboundLocalError ''rtol'')"
  by (simp add: gsvd_subspace_tans_def read_local_def)

theorem gsvd_subspace_tans_raises_witness:
  "gsvd_subspace_tans demo_lib demo_evp lam_b = Inl (UnboundLocalError ''rtol'')"
  using gsvd_subspace_tans_raises [of demo_lib demo_evp lam_b] by simp

lemma dlambda_never_returns:
  "dlambda g K self lam dx dy n rt mt \<noteq> Inr d"
  by (auto simp: dlambda_def Let_def split: option.splits sum.splits)

text \<open>
  C8. Without a direction \<open>dlambda\<close> never reaches the check of the multiplicity: it
  raises \<open>NameError\<close> for \<open>btol\<close> (or \<open>TypeError\<close> for \<open>mult_check\<close>, were \<open>btol\<close>
  bound), whatever the multiplicity of \<open>lambda\<close> is.
\<close>

theorem dlambda_no_direction:
  "dlambda g K self lam None None n rt mt =
     (if g ''btol'' = None then Inl (NameError ''btol'') else Inl (TypeError ''mult_check''))"
  by (auto simp: dlambda_def direction_check_def Let_def split: option.splits)

theorem dlambda_no_direction_witness:
  "dlambda (\<lambda>_. None) demo_lib demo_evp lam_b None None 20 None None
     = Inl (NameError ''btol'')"
  using dlambda_no_direction [of "\<lambda>_. None" demo_lib demo_evp lam_b 20 None None]
  by simp

subsection \<open>Operations on the quadrature nodes\<close>

lemma init_without_nodes:
  assumes "init ext v ords bp ip bm im None bw inn iw = Inr self"
  shows "weights self = None \<and> n_basis self = None \<and> bdry_nodes self = None"
  using assms
  by (auto simp: init_def Let_def split: sum.splits)

lemma weighted_matrix_missing:
  "weights self = None \<Longrightarrow> weighted_matrix self lam = Inl (AttributeError ''weights'')"
  by (simp add: weighted_matrix_def getattr_def)

text \<open>
  C10. On an instance constructed without \<open>bdry_nodes\<close>, each of the four operations on
  the quadrature nodes raises \<open>AttributeError\<close> (for \<open>weights\<close>, the first attribute it
  reads), for every \<open>lambda\<close> and every tolerance.
\<close>

theorem quadrature_operations_need_nodes:
  assumes "init ext v ords bp ip bm im None bw inn iw = Inr self"
  shows "weighted_subspace_sines K self lam rt pivot = Inl (AttributeError ''weights'') \<and>
         eigenbasis_coef K self lam rt mt = Inl (AttributeError ''weights'') \<and>
         gsvd_eigenbasis_coef K self lam mt = Inl (AttributeError ''weights'') \<and>
         eigenbasis_node_eval K self lam rt mt = Inl (AttributeError ''weights'')"
proof -
  from init_without_nodes [OF assms] have w: "weights self = None" by simp
  then have m: "weighted_matrix self lam = Inl (AttributeError ''weights'')"
    by (rule weighted_matrix_missing)
  show ?thesis
    by (simp add: weighted_subspace_sines_def eigenbasis_coef_def gsvd_eigenbasis_coef_def
        eigenbasis_node_eval_def m Let_def)
qed

theorem quadrature_operations_need_nodes_witness:
  "weighted_subspace_sines demo_lib demo_evp lam_b None True
     = Inl (AttributeError ''weights'') \<and>
   eigenbasis_coef demo_lib demo_evp lam_b None None
     = Inl (AttributeError ''weights'') \<and>
   gsvd_eigenbasis_coef demo_lib demo_evp lam_b None
     = Inl (AttributeError ''weights'') \<and>
   eigenbasis_node_eval demo_lib demo_evp lam_b None None
     = Inl (AttributeError ''weights'')"
  by (rule quadrature_operations_need_nodes [OF demo_init])

subsection \<open>Rank truncation and the sines\<close>

lemma truncated_qr_pivot:
  assumes "qr_pivoting K A = (Q, R, P)"
  shows "truncated_qr K A rt True =
           (case abs_diag R of
              [] \<Rightarrow> Inl IndexError
            | r0 # _ \<Rightarrow> Inr (Q, length (filter (\<lambda>x. r0 * rt < x) (abs_diag R))))"
  using assms by (simp add: truncated_qr_def rank_cutoff_def split: list.splits)

lemma truncated_qr_no_pivot:
  assumes "qr_economic K A = (Q, R)"
  shows "truncated_qr K A rt False = Inr (Q, ncols Q)"
  using assms by (simp add: truncated_qr_def)

lemma hd_is_Max:
  assumes "r \<noteq> []" "\<forall>x\<in>set r. x \<le> hd r"
  shows "Max (set r) = (hd r :: real)"
  using assms by (intro Max_eqI) auto

lemma demo_basis_eigenvalue: "demo_basis lam_b = matrix 2 1 [[0], [1]]"
  by (simp add: demo_basis_def)

lemma demo_basis_1: "demo_basis 1 = matrix 2 1 [[1], [0]]"
proof -
  have "(1::real) \<noteq> lam_a" "(1::real) \<noteq> lam_b"
    using pi_ge_two unfolding lam_a_def lam_b_def by linarith+
  then show ?thesis unfolding demo_basis_def by (simp only: if_False simp_thms)
qed

lemmas demo_eval =
  weighted_matrix_def getattr_def times_weights_def broadcast_ok_def broadcast_entry_def
  demo_quad_evp_def demo_evp_def demo_lib_def demo_basis_eigenvalue demo_basis_1 demo_qr_pivoting_def demo_svd_def
  demo_solve_triangular_def column_norm_def matrix_def nrows_def ncols_def abs_diag_def
  rank_cutoff_def slice2_def transpose_nd_def last_rows_def rows_from_def eye_def upt2 Let_def

text \<open>The factors of the instance with two basis functions.\<close>

lemma upt4: "[0..<4] = [0, Suc 0, 2, 3]"
  by (simp add: upt_rec)

lemma rec_shape:
  "nrows \<lparr>shape = [m, n], entry = e\<rparr> = m" "ncols \<lparr>shape = [m, n], entry = e\<rparr> = n"
  by (simp_all add: nrows_def ncols_def)

lemma ortho_shape: "nrows (ortho_basis lam) = 4" "ncols (ortho_basis lam) = 2"
  by (simp_all add: ortho_basis_def matrix_def nrows_def ncols_def)

lemma ortho_norms:
  "column_norm_at (ortho_basis lam) 0 = 2" "column_norm_at (ortho_basis lam) (Suc 0) = 1"
  by (simp_all add: column_norm_at_def ortho_basis_def matrix_def nrows_def upt4 power2_eq_square)

lemma ortho_fields:
  "basis ortho_evp = ortho_basis" "nrows (boundary_pts ortho_evp) = 2" "rtol ortho_evp = 0"
  by (simp_all add: ortho_evp_def demo_evp_def matrix_def nrows_def)

lemma ortho_qr_eval:
  "\<exists>Q R P. qr_pivoting ortho_lib (basis ortho_evp lam) = (Q, R, P) \<and>
     qr_economic ortho_lib (basis ortho_evp lam) = (Q, R) \<and> abs_diag R = [2, 1] \<and>
     shape Q = [4, 2] \<and> entry Q [0, 0] = 3 / 5 \<and> entry Q [Suc 0, 0] = 0 \<and>
     entry Q [0, Suc 0] = 0 \<and> entry Q [Suc 0, Suc 0] = 0"
  apply (simp add: ortho_lib_def ortho_fields ortho_qr_def abs_diag_def rec_shape upt2 ortho_norms ortho_shape)
  apply (simp add: ortho_basis_def matrix_def)
  done

lemma ortho_svd_eval:
  assumes "shape Q = [4, 2]"
  shows "svd ortho_lib (slice2 Q 2 2) = Some (eye 2, [entry Q [0, 0], entry Q [Suc 0, Suc 0]], eye 2)"
    "svd ortho_lib (slice2 Q 2 (Suc 0)) = Some (eye 2, [entry Q [0, 0]], eye 1)"
    "svd ortho_lib (slice2 Q 2 0) = Some (eye 2, [], eye 0)"
  using assms by (simp_all add: ortho_lib_def diag_svd_def slice2_def nrows_def ncols_def upt2)

text \<open>
  C5 (as amended). With pivoting, and for a factor \<open>R\<close> whose diagonal is not empty and
  whose first diagonal entry is the largest in magnitude (what column pivoting gives),
  \<open>subspace_sines\<close> keeps \<open>cutoff\<close> columns, where \<open>cutoff\<close> is the number of diagonal
  magnitudes above \<open>rtol\<close> times the largest one; \<open>cutoff\<close> is 0 when no column passes,
  and the step raises nothing.
\<close>

theorem pivoted_rank_cutoff:
  assumes qr: "qr_pivoting K (basis self lam) = (Q, R, P)"
    and ne: "abs_diag R \<noteq> []"
    and piv: "\<forall>x\<in>set (abs_diag R). x \<le> hd (abs_diag R)"
    and rt: "rt = (case rtol' of None \<Rightarrow> rtol self | Some t \<Rightarrow> t)"
    and c: "cutoff = length (filter (\<lambda>x. Max (set (abs_diag R)) * rt < x) (abs_diag R))"
  shows "truncated_qr K (basis self lam) rt True = Inr (Q, cutoff) \<and>
         subspace_sines K self lam rtol' True
           = reversed_singular_values K Q (nrows (boundary_pts self)) cutoff lam \<and>
         0 \<le> cutoff \<and>
         ((\<forall>x\<in>set (abs_diag R). \<not> Max (set (abs_diag R)) * rt < x) \<longrightarrow> cutoff = 0)"
proof -
  from ne obtain r0 rest where r: "abs_diag R = r0 # rest" by (cases "abs_diag R") auto
  have mx: "Max (set (abs_diag R)) = r0" using hd_is_Max [OF ne piv] r by simp
  have t: "truncated_qr K (basis self lam) rt True = Inr (Q, cutoff)"
    using truncated_qr_pivot [OF qr, of rt] r mx c by simp
  have s: "subspace_sines K self lam rtol' True
           = reversed_singular_values K Q (nrows (boundary_pts self)) cutoff lam"
    using t rt by (simp add: subspace_sines_def Let_def)
  have z: "(\<forall>x\<in>set (abs_diag R). \<not> Max (set (abs_diag R)) * rt < x) \<longrightarrow> cutoff = 0"
    using c by (simp add: filter_empty_conv)
  from t s z show ?thesis by simp
qed

theorem pivoted_rank_cutoff_witness:
  "(\<exists>Q. truncated_qr ortho_lib (basis ortho_evp lam_b) 0 True = Inr (Q, 2)) \<and>
   subspace_sines ortho_lib ortho_evp lam_b None True = Inr [0, 3 / 5] \<and>
   (\<exists>Q. truncated_qr ortho_lib (basis ortho_evp lam_b) (3 / 4) True = Inr (Q, 1)) \<and>
   subspace_sines ortho_lib ortho_evp lam_b (Some (3 / 4)) True = Inr [3 / 5] \<and>
   (\<exists>Q. truncated_qr ortho_lib (basis ortho_evp lam_b) 1 True = Inr (Q, 0)) \<and>
   subspace_sines ortho_lib ortho_evp lam_b (Some 1) True = Inr []"
proof -
  obtain Q R P where
    qr: "qr_pivoting ortho_lib (basis ortho_evp lam_b) = (Q, R, P)" and
    r: "abs_diag R = [2, 1]" and
    q: "shape Q = [4, 2]" "entry Q [0, 0] = 3 / 5" "entry Q [Suc 0, Suc 0] = 0"
    using ortho_qr_eval [of lam_b] by blast
  have ne: "abs_diag R \<noteq> []" and piv: "\<forall>x\<in>set (abs_diag R). x \<le> hd (abs_diag R)"
    using r by simp_all
  have rt0: "(0::real) = (case None of None \<Rightarrow> rtol ortho_evp | Some t \<Rightarrow> t)"
    and rt1: "(3 / 4 :: real) = (case Some (3 / 4) of None \<Rightarrow> rtol ortho_evp | Some t \<Rightarrow> t)"
    and rt2: "(1::real) = (case Some 1 of None \<Rightarrow> rtol ortho_evp | Some t \<Rightarrow> t)"
    by (simp_all add: ortho_fields)
  have c0: "(2::nat) = length (filter (\<lambda>x. Max (set (abs_diag R)) * 0 < x) (abs_diag R))"
    and c1: "Suc 0 = length (filter (\<lambda>x. Max (set (abs_diag R)) * (3 / 4) < x) (abs_diag R))"
    and c2: "(0::nat) = length (filter (\<lambda>x. Max (set (abs_diag R)) * 1 < x) (abs_diag R))"
    using r by simp_all
  note sv = ortho_svd_eval [OF q(1)]
  from pivoted_rank_cutoff [OF qr ne piv rt0 c0] have
    "truncated_qr ortho_lib (basis ortho_evp lam_b) 0 True = Inr (Q, 2) \<and>
     subspace_sines ortho_lib ortho_evp lam_b None True = Inr [0, 3 / 5]"
    by (simp add: reversed_singular_values_def ortho_fields sv q)
  moreover from pivoted_rank_cutoff [OF qr ne piv rt1 c1] have
    "truncated_qr ortho_lib (basis ortho_evp lam_b) (3 / 4) True = Inr (Q, 1) \<and>
     subspace_sines ortho_lib ortho_evp lam_b (Some (3 / 4)) True = Inr [3 / 5]"
    by (simp add: reversed_singular_values_def ortho_fields sv q)
  moreover from pivoted_rank_cutoff [OF qr ne piv rt2 c2] have
    "truncated_qr ortho_lib (basis ortho_evp lam_b) 1 True = Inr (Q, 0) \<and>
     subspace_sines ortho_lib ortho_evp lam_b (Some 1) True = Inr []"
    by (simp add: reversed_singular_values_def ortho_fields sv q)
  ultimately show ?thesis by blast
qed

text \<open>
  The claim as stated fails on an instance without sample points, which the constructor
  accepts (arrays of shape \<open>(0, 2)\<close> pass its check): the basis matrix has no row, the
  diagonal of \<open>R\<close> is empty and reading \<open>r[0]\<close> raises.
\<close>

theorem pivoted_rank_cutoff_counterexample:
  "coordinate_array BoundaryPtsShape (zeros 0 2) = Inr (zeros 0 2) \<and>
   coordinate_array InteriorPtsShape (zeros 0 2) = Inr (zeros 0 2) \<and>
   subspace_sines demo_lib
     (demo_evp\<lparr>basis := (\<lambda>lam. zeros 0 1), boundary_pts := zeros 0 2,
               interior_pts := zeros 0 2\<rparr>) lam_b None True
     = Inl IndexError"
  by (simp add: subspace_sines_def truncated_qr_def demo_lib_def demo_qr_pivoting_def
      demo_evp_def zeros_def nrows_def ncols_def abs_diag_def rank_cutoff_def Let_def
      coordinate_array_def ndim_def)

lemma sorted_rev_desc: "sorted_wrt (\<ge>) s \<Longrightarrow> sorted (rev (s :: real list))"
  by (simp add: sorted_wrt_rev)

text \<open>
  C1 (as amended). Let \<open>Q\<close> be the orthonormal factor that the library returns for the
  basis matrix (the pivoted one with \<open>pivot\<close>, the economic one without) and \<open>cutoff\<close>
  the number of its columns that are kept (the count of the rank test with \<open>pivot\<close>, all
  of them without). With \<open>pivot\<close> and a factor \<open>R\<close> without diagonal entry the call
  raises \<open>IndexError\<close>; where the decomposition of \<open>Q[:m_b, :cutoff]\<close> raises, the call
  raises the \<open>ValueError\<close> that names \<open>lambda\<close>; in every other case it returns the
  singular values of that block reversed. So where \<open>R\<close> has a diagonal entry and the
  decomposition succeeds with singular values that are non-negative and in descending
  order (what the SVD of the library gives), \<open>subspace_sines\<close> returns a non-negative
  sequence in ascending order.
\<close>

theorem subspace_sines_nonneg_ascending:
  assumes rt: "rt = (case rtol' of None \<Rightarrow> rtol self | Some t \<Rightarrow> t)"
    and qrp: "qr_pivoting K (basis self lam) = (Qp, Rp, Pp)"
    and qre: "qr_economic K (basis self lam) = (Qe, Rn)"
    and Q: "Q = (if pivot then Qp else Qe)"
    and c: "cutoff = (if pivot
                      then length (filter (\<lambda>x. hd (abs_diag Rp) * rt < x) (abs_diag Rp))
                      else ncols Qe)"
  shows "subspace_sines K self lam rtol' pivot =
           (if pivot \<and> abs_diag Rp = [] then Inl IndexError
            else case svd K (slice2 Q (nrows (boundary_pts self)) cutoff) of
                   None \<Rightarrow> Inl (ValueError (NonFiniteSVDAt lam))
                 | Some (U, s, Vh) \<Rightarrow> Inr (rev s)) \<and>
         (\<forall>U s Vh.
            \<not> (pivot \<and> abs_diag Rp = []) \<and>
            svd K (slice2 Q (nrows (boundary_pts self)) cutoff) = Some (U, s, Vh) \<and>
            sorted_wrt (\<ge>) s \<and> (\<forall>x\<in>set s. 0 \<le> x) \<longrightarrow>
            (\<exists>sines. subspace_sines K self lam rtol' pivot = Inr sines \<and> sines = rev s \<and>
                     sorted sines \<and> (\<forall>x\<in>set sines. 0 \<le> x)))"
proof -
  have t: "truncated_qr K (basis self lam) rt pivot =
             (if pivot \<and> abs_diag Rp = [] then Inl IndexError else Inr (Q, cutoff))"
  proof (cases pivot)
    case True
    then show ?thesis
      using truncated_qr_pivot [OF qrp, of rt] Q c by (cases "abs_diag Rp") simp_all
  next
    case False
    then show ?thesis
      using truncated_qr_no_pivot [OF qre, of rt] Q c by simp
  qed
  have e: "subspace_sines K self lam rtol' pivot =
           (if pivot \<and> abs_diag Rp = [] then Inl IndexError
            else case svd K (slice2 Q (nrows (boundary_pts self)) cutoff) of
                   None \<Rightarrow> Inl (ValueError (NonFiniteSVDAt lam))
                 | Some (U, s, Vh) \<Rightarrow> Inr (rev s))"
    using rt t by (simp add: subspace_sines_def reversed_singular_values_def Let_def)
  have r: "\<exists>sines. subspace_sines K self lam rtol' pivot = Inr sines \<and> sines = rev s \<and>
                   sorted sines \<and> (\<forall>x\<in>set sines. 0 \<le> x)"
    if "\<not> (pivot \<and> abs_diag Rp = [])"
      and "svd K (slice2 Q (nrows (boundary_pts self)) cutoff) = Some (U, s, Vh)"
      and "sorted_wrt (\<ge>) s" and "\<forall>x\<in>set s. 0 \<le> x" for U s Vh
  proof -
    have "subspace_sines K self lam rtol' pivot = Inr (rev s)"
      using e that(1,2) by simp
    moreover have "sorted (rev s)" using that(3) by (rule sorted_rev_desc)
    moreover have "\<forall>x\<in>set (rev s). 0 \<le> x" using that(4) by simp
    ultimately show ?thesis by simp
  qed
  from e r show ?thesis by blast
qed

theorem subspace_sines_nonneg_ascending_witness:
  "subspace_sines ortho_lib ortho_evp lam_a None True = Inr [0, 3 / 5] \<and>
   subspace_sines ortho_lib ortho_evp lam_a None False = Inr [0, 3 / 5] \<and>
   subspace_sines ortho_lib ortho_evp lam_a (Some (3 / 4)) True = Inr [3 / 5] \<and>
   sorted [0, 3 / 5 :: real]"
proof -
  obtain Q R P where
    qrp: "qr_pivoting ortho_lib (basis ortho_evp lam_a) = (Q, R, P)" and
    qre: "qr_economic ortho_lib (basis ortho_evp lam_a) = (Q, R)" and
    r: "abs_diag R = [2, 1]" and
    q: "shape Q = [4, 2]" "entry Q [0, 0] = 3 / 5" "entry Q [Suc 0, Suc 0] = 0"
    using ortho_qr_eval [of lam_a] by blast
  have rt0: "(0::real) = (case None of None \<Rightarrow> rtol ortho_evp | Some t \<Rightarrow> t)"
    and rt1: "(3 / 4 :: real) = (case Some (3 / 4) of None \<Rightarrow> rtol ortho_evp | Some t \<Rightarrow> t)"
    by (simp_all add: ortho_fields)
  have Qt: "Q = (if True then Q else Q)" and Qf: "Q = (if False then Q else Q)" by simp_all
  have c0: "(2::nat) = (if True then length (filter (\<lambda>x. hd (abs_diag R) * 0 < x) (abs_diag R))
                        else ncols Q)"
    and c1: "(2::nat) = (if False then length (filter (\<lambda>x. hd (abs_diag R) * 0 < x) (abs_diag R))
                        else ncols Q)"
    and c2: "Suc 0 = (if True
                      then length (filter (\<lambda>x. hd (abs_diag R) * (3 / 4) < x) (abs_diag R))
                      else ncols Q)"
    using r q(1) by (simp_all add: ncols_def)
  note sv = ortho_svd_eval [OF q(1)]
  from subspace_sines_nonneg_ascending [OF rt0 qrp qre Qt c0] have
    "subspace_sines ortho_lib ortho_evp lam_a None True = Inr [0, 3 / 5]"
    by (simp add: ortho_fields sv q r)
  moreover from subspace_sines_nonneg_ascending [OF rt0 qrp qre Qf c1] have
    "subspace_sines ortho_lib ortho_evp lam_a None False = Inr [0, 3 / 5]"
    by (simp add: ortho_fields sv q r)
  moreover from subspace_sines_nonneg_ascending [OF rt1 qrp qre Qt c2] have
    "subspace_sines ortho_lib ortho_evp lam_a (Some (3 / 4)) True = Inr [3 / 5]"
    by (simp add: ortho_fields sv q r)
  ultimately show ?thesis by simp
qed

text \<open>
  The claim as stated fails although every entry of the basis matrix is finite: on an
  instance without basis functions the matrix has no column, and on an instance without
  sample points it has no row; the diagonal of \<open>R\<close> is then empty and reading \<open>r[0]\<close>
  raises. And with \<open>rtol = 1\<close> no column passes the rank test, the block is empty, and
  a library that refuses an empty block makes the call raise the \<open>ValueError\<close>.
\<close>

theorem subspace_sines_nonneg_ascending_counterexample:
  "subspace_sines demo_lib (demo_evp\<lparr>basis := (\<lambda>lam. zeros 2 0)\<rparr>) lam_a None True
     = Inl IndexError \<and>
   subspace_sines demo_lib
     (demo_evp\<lparr>basis := (\<lambda>lam. zeros 0 1), boundary_pts := zeros 0 2,
               interior_pts := zeros 0 2\<rparr>) lam_a None True
     = Inl IndexError \<and>
   subspace_sines (ortho_lib\<lparr>svd := strict_svd\<rparr>) ortho_evp lam_a (Some 1) True
     = Inl (ValueError (NonFiniteSVDAt lam_a))"
proof -
  have "subspace_sines demo_lib (demo_evp\<lparr>basis := (\<lambda>lam. zeros 2 0)\<rparr>) lam_a None True
     = Inl IndexError"
    by (simp add: subspace_sines_def truncated_qr_def demo_lib_def demo_qr_pivoting_def
      demo_evp_def zeros_def nrows_def ncols_def abs_diag_def rank_cutoff_def Let_def)
  moreover have "subspace_sines demo_lib
     (demo_evp\<lparr>basis := (\<lambda>lam. zeros 0 1), boundary_pts := zeros 0 2,
               interior_pts := zeros 0 2\<rparr>) lam_a None True
     = Inl IndexError"
    by (simp add: subspace_sines_def truncated_qr_def demo_lib_def demo_qr_pivoting_def
      demo_evp_def zeros_def nrows_def ncols_def abs_diag_def rank_cutoff_def Let_def)
  moreover have "subspace_sines (ortho_lib\<lparr>svd := strict_svd\<rparr>) ortho_evp lam_a (Some 1) True
     = Inl (ValueError (NonFiniteSVDAt lam_a))"
    by (simp add: subspace_sines_def truncated_qr_def reversed_singular_values_def ortho_lib_def
        ortho_fields ortho_qr_def abs_diag_def rec_shape upt2 ortho_norms ortho_shape
        rank_cutoff_def strict_svd_def slice2_def Let_def)
  ultimately show ?thesis by simp
qed

subsection \<open>Eigenbasis coefficients\<close>

lemma rank_cutoff_le:
  assumes "rank_cutoff r rt = Inr c"
  shows "c \<le> length r"
proof (cases r)
  case Nil
  with assms show ?thesis by (simp add: rank_cutoff_def)
next
  case (Cons r0 rest)
  with assms have "c = length (filter (\<lambda>x. r0 * rt < x) r)"
    by (simp add: rank_cutoff_def)
  then show ?thesis by simp
qed

lemma last_desc_Min:
  assumes "sorted_wrt (\<ge>) s" "s \<noteq> []"
  shows "last s = Min (set (s :: real list))"
proof -
  have "\<forall>y\<in>set s. last s \<le> y"
    using assms
  proof (induction s)
    case Nil
    then show ?case by simp
  next
    case (Cons a s)
    then show ?case by (cases "s = []") auto
  qed
  moreover have "last s \<in> set s" using assms(2) by simp
  ultimately show ?thesis by (intro Min_eqI [symmetric]) auto
qed

lemma multiplicity_Fin:
  "multiplicity lam (map Fin s) mt =
     (if length (filter (\<lambda>x. x < mt) s) = 0
      then (if s = [] then Inl IndexError
            else Inl (ValueError (ZeroMultiplicity lam (Fin (last s)) mt)))
      else Inr (length (filter (\<lambda>x. x < mt) s)))"
  by (simp add: multiplicity_def Let_def filter_map o_def last_map)

lemma eigenbasis_coef_steps:
  assumes "rt = (case rtol' of None \<Rightarrow> rtol self | Some t \<Rightarrow> t)"
    and "mt = (case mtol' of None \<Rightarrow> mtol self | Some t \<Rightarrow> t)"
    and "weighted_matrix self lam = Inr (A, m_b)"
    and "qr_pivoting K A = (Q, R, P)"
    and "rank_cutoff (abs_diag R) rt = Inr cutoff"
    and "svd K (slice2 Q m_b cutoff) = Some (U, s, Vh)"
  shows "eigenbasis_coef K self lam rtol' mtol' =
     (case multiplicity lam (map Fin s) mt of
        Inl e \<Rightarrow> Inl e
      | Inr mult' \<Rightarrow>
          (case solve_triangular K (slice2 R cutoff cutoff) (transpose_nd (last_rows Vh mult')) of
             None \<Rightarrow> Inl LinAlgError
           | Some X \<Rightarrow>
               (case assign_rows (zeros (ncols A) mult') cutoff X of
                  Inl e \<Rightarrow> Inl e
                | Inr C' \<Rightarrow> take_rows C' (invert_permutation K P))))"
  using assms by (simp add: eigenbasis_coef_def Let_def cong: sum.case_cong option.case_cong)

lemma assign_rows_not_zero_mult:
  "assign_rows C k X \<noteq> Inl (ValueError (ZeroMultiplicity a b c))"
  by (simp add: assign_rows_def Let_def)

lemma take_rows_not_zero_mult:
  "take_rows C idxs \<noteq> Inl (ValueError (ZeroMultiplicity a b c))"
  by (simp add: take_rows_def)

lemma assign_rows_same_shape:
  "shape X = [k, n] \<Longrightarrow> k \<le> m \<Longrightarrow>
   \<exists>C'. assign_rows (zeros m n) k X = Inr C' \<and> shape C' = [m, n]"
  by (simp add: assign_rows_def zeros_def nrows_def ncols_def broadcast_ok_def Let_def)

lemma take_rows_shape:
  "shape C = [m, n] \<Longrightarrow> list_all (\<lambda>i. i < m) idxs \<Longrightarrow>
   \<exists>D. take_rows C idxs = Inr D \<and> shape D = [length idxs, n]"
  by (simp add: take_rows_def nrows_def)

text \<open>
  Where the truncated block of boundary rows has a singular value the multiplicity is
  handled as intended. Let \<open>s\<close> be the singular values, not empty and in descending
  order, and \<open>cnt\<close> the number of them below \<open>mtol\<close>. \<open>eigenbasis_coef\<close> raises the
  zero-multiplicity error exactly when \<open>cnt\<close> is zero, and the error then carries
  \<open>lambda\<close>, the smallest singular value and \<open>mtol\<close>. When \<open>cnt\<close> is positive and the
  triangular solve returns its \<open>cutoff\<close> by \<open>cnt\<close> solution, no error is raised and the
  coefficient matrix has \<open>cnt\<close> columns.
\<close>

lemma eigenbasis_coef_positive_block:
  assumes rt: "rt = (case rtol' of None \<Rightarrow> rtol self | Some t \<Rightarrow> t)"
    and mt: "mt = (case mtol' of None \<Rightarrow> mtol self | Some t \<Rightarrow> t)"
    and wm: "weighted_matrix self lam = Inr (A, m_b)"
    and qr: "qr_pivoting K A = (Q, R, P)"
    and nc: "ncols R = ncols A"
    and cut: "rank_cutoff (abs_diag R) rt = Inr cutoff"
    and dec: "svd K (slice2 Q m_b cutoff) = Some (U, s, Vh)"
    and ne: "s \<noteq> []"
    and desc: "sorted_wrt (\<ge>) s"
    and cn: "cnt = length (filter (\<lambda>x. x < mt) s)"
  shows "(cnt = 0 \<longleftrightarrow>
            (\<exists>a b c. eigenbasis_coef K self lam rtol' mtol'
                       = Inl (ValueError (ZeroMultiplicity a b c)))) \<and>
         (cnt = 0 \<longrightarrow>
            eigenbasis_coef K self lam rtol' mtol'
              = Inl (ValueError (ZeroMultiplicity lam (Fin (Min (set s))) mt))) \<and>
         (0 < cnt \<longrightarrow>
            (\<forall>X. solve_triangular K (slice2 R cutoff cutoff) (transpose_nd (last_rows Vh cnt))
                   = Some X \<and>
                 shape X = [cutoff, cnt] \<and>
                 list_all (\<lambda>i. i < ncols A) (invert_permutation K P) \<longrightarrow>
                 (\<exists>C. eigenbasis_coef K self lam rtol' mtol' = Inr C \<and>
                      shape C = [length (invert_permutation K P), cnt] \<and>
                      ncols C = cnt)))"
proof -
  note steps = eigenbasis_coef_steps [OF rt mt wm qr cut dec]
  have zero: "eigenbasis_coef K self lam rtol' mtol'
                = Inl (ValueError (ZeroMultiplicity lam (Fin (Min (set s))) mt))"
    if "cnt = 0"
    using that cn ne last_desc_Min [OF desc ne]
    by (simp add: steps multiplicity_Fin)
  have pos: "\<not> (\<exists>a b c. eigenbasis_coef K self lam rtol' mtol'
                       = Inl (ValueError (ZeroMultiplicity a b c)))"
    if "0 < cnt"
    using that cn
    by (auto simp: steps multiplicity_Fin assign_rows_not_zero_mult take_rows_not_zero_mult
        split: option.splits sum.splits)
  have ret: "\<exists>C. eigenbasis_coef K self lam rtol' mtol' = Inr C \<and>
                 shape C = [length (invert_permutation K P), cnt] \<and> ncols C = cnt"
    if c: "0 < cnt"
      and X: "solve_triangular K (slice2 R cutoff cutoff) (transpose_nd (last_rows Vh cnt))
                = Some X"
      and sh: "shape X = [cutoff, cnt]"
      and perm: "list_all (\<lambda>i. i < ncols A) (invert_permutation K P)"
    for X
  proof -
    have "cutoff \<le> length (abs_diag R)" using cut by (rule rank_cutoff_le)
    then have le: "cutoff \<le> ncols A" using nc by (simp add: abs_diag_def)
    from assign_rows_same_shape [OF sh le] obtain C' where
      C': "assign_rows (zeros (ncols A) cnt) cutoff X = Inr C'" "shape C' = [ncols A, cnt]"
      by blast
    from take_rows_shape [OF C'(2) perm] obtain D where
      D: "take_rows C' (invert_permutation K P) = Inr D"
         "shape D = [length (invert_permutation K P), cnt]"
      by blast
    have "eigenbasis_coef K self lam rtol' mtol' = Inr D"
      using c cn X C'(1) D(1) by (simp add: steps multiplicity_Fin)
    with D(2) show ?thesis by (simp add: ncols_def)
  qed
  show ?thesis
    using zero pos ret by (cases "cnt = 0") auto
qed


lemma demo_quad_eigenvalue:
  "\<exists>A Q R P U Vh X.
     weighted_matrix demo_quad_evp lam_b = Inr (A, 1) \<and>
     qr_pivoting demo_lib A = (Q, R, P) \<and> ncols R = ncols A \<and>
     rank_cutoff (abs_diag R) 0 = Inr 1 \<and>
     svd demo_lib (slice2 Q 1 1) = Some (U, [0], Vh) \<and>
     solve_triangular demo_lib (slice2 R 1 1) (transpose_nd (last_rows Vh 1)) = Some X \<and>
     shape X = [1, 1] \<and>
     list_all (\<lambda>i. i < ncols A) (invert_permutation demo_lib P) \<and>
     length (invert_permutation demo_lib P) = 1"
  by (simp add: demo_eval)

lemma demo_quad_other:
  "\<exists>A Q R P U Vh.
     weighted_matrix demo_quad_evp 1 = Inr (A, 1) \<and>
     qr_pivoting demo_lib A = (Q, R, P) \<and> ncols R = ncols A \<and>
     rank_cutoff (abs_diag R) 0 = Inr 1 \<and>
     svd demo_lib (slice2 Q 1 1) = Some (U, [1], Vh)"
  by (simp add: demo_eval)

lemma eigenbasis_coef_unit_square:
  "(\<exists>C. eigenbasis_coef demo_lib demo_quad_evp lam_b None None = Inr C \<and>
        shape C = [1, 1]) \<and>
   eigenbasis_coef demo_lib demo_quad_evp 1 None None
     = Inl (ValueError (ZeroMultiplicity 1 (Fin 1) (1 / 10 ^ 4)))"
proof -
  have rt: "(0::real) = (case None of None \<Rightarrow> rtol demo_quad_evp | Some t \<Rightarrow> t)"
    and mt: "(1 / 10 ^ 4 :: real) = (case None of None \<Rightarrow> mtol demo_quad_evp | Some t \<Rightarrow> t)"
    by (simp_all add: demo_quad_evp_def demo_evp_def)
  obtain A Q R P U Vh X where
    e: "weighted_matrix demo_quad_evp lam_b = Inr (A, 1)"
       "qr_pivoting demo_lib A = (Q, R, P)" "ncols R = ncols A"
       "rank_cutoff (abs_diag R) 0 = Inr 1"
       "svd demo_lib (slice2 Q 1 1) = Some (U, [0], Vh)" and
    x: "solve_triangular demo_lib (slice2 R 1 1) (transpose_nd (last_rows Vh 1)) = Some X"
       "shape X = [1, 1]"
       "list_all (\<lambda>i. i < ncols A) (invert_permutation demo_lib P)"
       "length (invert_permutation demo_lib P) = 1"
    using demo_quad_eigenvalue by blast
  have c1: "(1::nat) = length (filter (\<lambda>x. x < 1 / 10 ^ 4) [0 :: real])" by simp
  from eigenbasis_coef_positive_block [OF rt mt e(1) e(2) e(3) e(4) e(5) _ _ c1] x
  have first: "\<exists>C. eigenbasis_coef demo_lib demo_quad_evp lam_b None None = Inr C \<and>
        shape C = [1, 1]"
    by auto
  obtain A' Q' R' P' U' Vh' where
    o: "weighted_matrix demo_quad_evp 1 = Inr (A', 1)"
       "qr_pivoting demo_lib A' = (Q', R', P')" "ncols R' = ncols A'"
       "rank_cutoff (abs_diag R') 0 = Inr 1"
       "svd demo_lib (slice2 Q' 1 1) = Some (U', [1], Vh')"
    using demo_quad_other by blast
  have c0: "(0::nat) = length (filter (\<lambda>x. x < 1 / 10 ^ 4) [1 :: real])" by simp
  from eigenbasis_coef_positive_block [OF rt mt o(1) o(2) o(3) o(4) o(5) _ _ c0]
  have second: "eigenbasis_coef demo_lib demo_quad_evp 1 None None
     = Inl (ValueError (ZeroMultiplicity 1 (Fin 1) (1 / 10 ^ 4)))"
    by simp
  from first second show ?thesis by simp
qed

lemma abs_diag_nonneg: "x \<in> set (abs_diag R) \<Longrightarrow> 0 \<le> x"
  by (auto simp: abs_diag_def)

lemma rank_cutoff_none_kept:
  assumes ne: "r \<noteq> []" and piv: "\<forall>x\<in>set r. x \<le> hd r" and pos: "\<forall>x\<in>set r. 0 \<le> x"
    and rt: "1 \<le> rt"
  shows "rank_cutoff r rt = Inr 0"
proof -
  from ne obtain r0 rest where r: "r = r0 # rest" by (cases r) auto
  have r0: "0 \<le> r0" using pos r by simp
  have "r0 * 1 \<le> r0 * rt" using rt r0 by (intro mult_left_mono)
  then have "\<not> r0 * rt < x" if "x \<in> set r" for x
    using piv that r by fastforce
  then have "filter (\<lambda>x. r0 * rt < x) r = []" by (simp add: filter_empty_conv)
  then show ?thesis using r by (simp add: rank_cutoff_def)
qed

text \<open>
  C2. The count of singular values below \<open>mtol\<close> is also zero when the block has no
  singular value at all, which is the case as soon as no column passes the rank test:
  with \<open>rtol\<close> at least 1 on any pivoted factor (\<open>cutoff = 0\<close>). The code then enters
  the branch that raises the zero-multiplicity error (line 310), but formatting its
  message reads \<open>s[-1]\<close> of the empty sequence: the call raises \<open>IndexError\<close> (or the
  \<open>ValueError\<close> of the decomposition, where the library refuses the empty block), never
  the zero-multiplicity error.
\<close>

theorem eigenbasis_coef_no_column_kept:
  assumes rt: "rt = (case rtol' of None \<Rightarrow> rtol self | Some t \<Rightarrow> t)"
    and wm: "weighted_matrix self lam = Inr (A, m_b)"
    and qr: "qr_pivoting K A = (Q, R, P)"
    and ne: "abs_diag R \<noteq> []"
    and piv: "\<forall>x\<in>set (abs_diag R). x \<le> hd (abs_diag R)"
    and ge: "1 \<le> rt"
    and emp: "\<forall>U s Vh. svd K (slice2 Q m_b 0) = Some (U, s, Vh) \<longrightarrow> s = []"
  shows "rank_cutoff (abs_diag R) rt = Inr 0 \<and>
         eigenbasis_coef K self lam rtol' mtol' =
           (if svd K (slice2 Q m_b 0) = None then Inl (ValueError NonFiniteSVD)
            else Inl IndexError) \<and>
         (\<forall>a b c. eigenbasis_coef K self lam rtol' mtol'
                    \<noteq> Inl (ValueError (ZeroMultiplicity a b c)))"
proof -
  have cut: "rank_cutoff (abs_diag R) rt = Inr 0"
    using ne piv _ ge by (rule rank_cutoff_none_kept) (simp add: abs_diag_nonneg)
  have e: "eigenbasis_coef K self lam rtol' mtol' =
           (if svd K (slice2 Q m_b 0) = None then Inl (ValueError NonFiniteSVD)
            else Inl IndexError)"
  proof (cases "svd K (slice2 Q m_b 0)")
    case None
    then show ?thesis
      using rt wm qr cut by (simp add: eigenbasis_coef_def Let_def)
  next
    case (Some t)
    obtain U s Vh where t: "t = (U, s, Vh)" by (cases t) auto
    with Some emp have s: "s = []" by simp
    have "svd K (slice2 Q m_b 0) = Some (U, [], Vh)" using Some t s by simp
    then show ?thesis
      using rt wm qr cut by (simp add: eigenbasis_coef_def multiplicity_def Let_def)
  qed
  from cut e show ?thesis by simp
qed

lemma demo_quad_no_column:
  "\<exists>A Q R P U Vh.
     weighted_matrix demo_quad_evp 1 = Inr (A, 1) \<and>
     qr_pivoting demo_lib A = (Q, R, P) \<and> abs_diag R = [1] \<and>
     svd demo_lib (slice2 Q 1 0) = Some (U, [], Vh)"
  "\<exists>A Q R P U Vh.
     weighted_matrix demo_quad_evp lam_b = Inr (A, 1) \<and>
     qr_pivoting demo_lib A = (Q, R, P) \<and> abs_diag R = [1] \<and>
     svd demo_lib (slice2 Q 1 0) = Some (U, [], Vh)"
  by (simp_all add: demo_eval)

theorem eigenbasis_coef_no_column_kept_witness:
  "eigenbasis_coef demo_lib demo_quad_evp 1 (Some 1) None = Inl IndexError \<and>
   eigenbasis_coef demo_lib demo_quad_evp lam_b (Some 1) (Some (1 / 10)) = Inl IndexError"
proof -
  have rt: "(1::real) = (case Some 1 of None \<Rightarrow> rtol demo_quad_evp | Some t \<Rightarrow> t)"
    by simp
  obtain A Q R P U Vh where
    o: "weighted_matrix demo_quad_evp 1 = Inr (A, 1)"
       "qr_pivoting demo_lib A = (Q, R, P)" and
    r: "abs_diag R = [1]" and
    s: "svd demo_lib (slice2 Q 1 0) = Some (U, [], Vh)"
    using demo_quad_no_column(1) by blast
  have ne: "abs_diag R \<noteq> []" and piv: "\<forall>x\<in>set (abs_diag R). x \<le> hd (abs_diag R)"
    using r by simp_all
  have emp: "\<forall>U s Vh. svd demo_lib (slice2 Q 1 0) = Some (U, s, Vh) \<longrightarrow> s = []"
    using s by simp
  from eigenbasis_coef_no_column_kept [OF rt o(1) o(2) ne piv _ emp, of None] s
  have first: "eigenbasis_coef demo_lib demo_quad_evp 1 (Some 1) None = Inl IndexError"
    by simp
  obtain A' Q' R' P' U' Vh' where
    o': "weighted_matrix demo_quad_evp lam_b = Inr (A', 1)"
        "qr_pivoting demo_lib A' = (Q', R', P')" and
    r': "abs_diag R' = [1]" and
    s': "svd demo_lib (slice2 Q' 1 0) = Some (U', [], Vh')"
    using demo_quad_no_column(2) by blast
  have ne': "abs_diag R' \<noteq> []" and piv': "\<forall>x\<in>set (abs_diag R'). x \<le> hd (abs_diag R')"
    using r' by simp_all
  have emp': "\<forall>U s Vh. svd demo_lib (slice2 Q' 1 0) = Some (U, s, Vh) \<longrightarrow> s = []"
    using s' by simp
  from eigenbasis_coef_no_column_kept [OF rt o'(1) o'(2) ne' piv' _ emp', of "Some (1 / 10)"] s'
  have second: "eigenbasis_coef demo_lib demo_quad_evp lam_b (Some 1) (Some (1 / 10))
                  = Inl IndexError"
    by simp
  from first second show ?thesis by simp
qed


subsection \<open>Weyl estimates and the scan window\<close>

text \<open>The estimate grows without bound in its index, so the escalation ends.\<close>

lemma weyl_k_lower:
  assumes "0 < area self" "0 \<le> perimiter self"
  shows "(perimiter self / area self)\<^sup>2 + 4 * pi * real k / area self \<le> weyl_k self k"
proof -
  define A where "A = area self"
  define P where "P = perimiter self"
  define c where "c = 16 * pi * A * real k"
  define s where "s = sqrt (P\<^sup>2 + c)"
  have A: "0 < A" and P: "0 \<le> P" using assms by (simp_all add: A_def P_def)
  have c: "0 \<le> c" using A by (simp add: c_def)
  have s2: "s\<^sup>2 = P\<^sup>2 + c" using c by (simp add: s_def)
  have "sqrt (P\<^sup>2) \<le> s" unfolding s_def using c by (intro real_sqrt_le_mono) simp
  then have sP: "P \<le> s" using P by simp
  have "P * P \<le> P * s" using sP P by (intro mult_left_mono)
  then have "4 * P\<^sup>2 + c \<le> (P + s)\<^sup>2"
    using s2 by (simp add: power2_eq_square algebra_simps)
  then have "(4 * P\<^sup>2 + c) / (2 * A)\<^sup>2 \<le> (P + s)\<^sup>2 / (2 * A)\<^sup>2"
    by (intro divide_right_mono) simp_all
  moreover have "(4 * P\<^sup>2 + c) / (2 * A)\<^sup>2 = (P / A)\<^sup>2 + 4 * pi * real k / A"
    using A by (simp add: c_def power2_eq_square field_simps)
  moreover have "(P + s)\<^sup>2 / (2 * A)\<^sup>2 = weyl_k self k"
    by (simp add: weyl_k_def Let_def A_def P_def s_def c_def power_divide)
  ultimately show ?thesis by (simp add: A_def P_def)
qed


lemma escalate_stop:
  "\<not> end' + 10 ^ 8 * xtol < start \<Longrightarrow>
   escalate self kc xtol start lev end' = Some (end', lev)"
  by (subst escalate.simps) simp


lemma found_fields:
  "area (found st) = 1" "perimiter (found st) = 4"
  "lambda_1_lb (found st) = 576 / 100 * pi" "ordered_eigs (found st) = sort st"
  by (simp_all add: found_def demo_evp_def ordered_eigs_def)

lemma found_set: "set_ordered_eigs (found st) arr = found (sort arr)"
  by (simp add: found_def set_ordered_eigs_def)

lemma found_sines:
  "subspace_sines demo_lib (found st) x None True =
     Inr [if x = lam_a \<or> x = lam_b then 0 else 1]"
proof -
  have "subspace_sines demo_lib (found st) x None True
          = subspace_sines demo_lib demo_evp x None True"
    by (simp add: subspace_sines_def found_def)
  then show ?thesis by (simp add: demo_sines)
qed

lemma found_weyl: "16 + 4 * pi * real k \<le> weyl_k (found st) k"
  using weyl_k_lower [of "found st" k] by (simp add: found_fields)

lemma demo_values:
  "lam_a < 576 / 100 * pi" "576 / 100 * pi \<le> lam_b" "lam_a \<le> lam_b" "lam_b < 24"
  "1 / 10 \<le> \<bar>lam_a - lam_b\<bar>"
  using pi_ge_two pi_less_4 unfolding lam_a_def lam_b_def by simp_all

lemma found_empty: "found [] = demo_evp"
  by (simp add: found_def demo_evp_def)

text \<open>An extension of the previous scan keeps the window and the level it is given.\<close>

lemma scan_window_extended:
  "scan_window self xtol True s0 e0 l0 = Some (s0, e0, l0, (e0 - s0) / (20 * real l0))"
  by (simp add: scan_window_def Let_def)


lemma scan_window_first_level:
  assumes "start = (if ordered_eigs self = [] then lambda_1_lb self
                    else last (ordered_eigs self))"
    and "W = weyl_k self (length (ordered_eigs self) + 1)"
    and "\<not> W + 10 ^ 8 * xtol < start"
  shows "scan_window self xtol False s0 e0 l0 = Some (start, W, 1, (W - start) / 20)"
proof -
  have "(if length (ordered_eigs self) = 0 then lambda_1_lb self
         else ordered_eigs self ! (length (ordered_eigs self) - 1)) = start"
    using assms(1) by (simp add: last_conv_nth)
  then show ?thesis
    using assms(2,3) by (simp add: scan_window_def Let_def escalate_stop)
qed










lemma solve_loop_done:
  "\<not> int (length (ordered_eigs self)) < k \<Longrightarrow>
   solve_loop K xtol ytol k (self, fevals, ex, s, e, l) = Some (Inr (self, fevals))"
  by (subst solve_loop.simps) simp

lemma solve_loop_found:
  assumes "int (length (ordered_eigs self)) < k"
    and "scan_window self xtol ex s e l = Some (start1, end1, lev1, h)"
    and "start2 = (if length (ordered_eigs self) \<noteq> 0 then start1 - h else start1)"
    and "minsearch K (obj K self) start2 (end1 + h) h xtol = Inr (minima, fe)"
    and "confirm_minima K self k xtol ytol minima = Inr self'"
    and "length (ordered_eigs self') \<noteq> length (ordered_eigs self)"
  shows "solve_loop K xtol ytol k (self, fevals, ex, s, e, l)
           = solve_loop K xtol ytol k (self', fevals + fe, False, start2, end1, lev1)"
  using assms by (subst solve_loop.simps) (simp add: Let_def)

lemma solve_loop_extend:
  assumes "int (length (ordered_eigs self)) < k"
    and "scan_window self xtol ex s e l = Some (start1, end1, lev1, h)"
    and "start2 = (if length (ordered_eigs self) \<noteq> 0 then start1 - h else start1)"
    and "minsearch K (obj K self) start2 (end1 + h) h xtol = Inr (minima, fe)"
    and "confirm_minima K self k xtol ytol minima = Inr self'"
    and "length (ordered_eigs self') = length (ordered_eigs self)"
  shows "solve_loop K xtol ytol k (self, fevals, ex, s, e, l)
           = solve_loop K xtol ytol k
               (self', fevals + fe, True, end1, end1 + (end1 - start2), lev1)"
  using assms by (subst solve_loop.simps) (simp add: Let_def)

subsection \<open>The search loop\<close>

lemma set_ordered_eigs_store:
  "ordered_eigs_store (set_ordered_eigs self arr) = sort arr"
  "set_ordered_eigs self arr = self\<lparr>ordered_eigs_store := sort arr\<rparr>"
  by (simp_all add: set_ordered_eigs_def)

lemma confirm_minima_Cons:
  assumes "subspace_sines K self x None True = Inr sines"
    and "m = length (filter (\<lambda>s. s < ytol) sines)"
    and "dup = (if length (ordered_eigs self) > 0
                then Min (set (map (\<lambda>e. \<bar>x - e\<bar>) (ordered_eigs self))) < xtol else False)"
    and "new = set_ordered_eigs self (ordered_eigs self @ replicate m x)"
  shows "confirm_minima K self k xtol ytol (x # ms) =
           (if \<not> dup \<and> m > 0
            then (if int (length (ordered_eigs new)) \<ge> k then Inr new
                  else confirm_minima K new k xtol ytol ms)
            else confirm_minima K self k xtol ytol ms)"
  using assms by (simp add: Let_def)

lemma confirm_minima_extends:
  assumes "confirm_minima K self k xtol ytol ms = Inr self'"
  shows "mset (ordered_eigs_store self) \<subseteq># mset (ordered_eigs_store self') \<and>
         self' = self\<lparr>ordered_eigs_store := ordered_eigs_store self'\<rparr>"
  using assms
proof (induction ms arbitrary: self)
  case Nil
  then show ?case by simp
next
  case (Cons x ms)
  from Cons.prems obtain sines where
    s: "subspace_sines K self x None True = Inr sines"
    by (auto split: sum.splits)
  define m where "m = length (filter (\<lambda>s. s < ytol) sines)"
  define dup where
    "dup = (if length (ordered_eigs self) > 0
            then Min (set (map (\<lambda>e. \<bar>x - e\<bar>) (ordered_eigs self))) < xtol else False)"
  define new where "new = set_ordered_eigs self (ordered_eigs self @ replicate m x)"
  note step = confirm_minima_Cons [OF s m_def dup_def new_def]
  have grow: "mset (ordered_eigs_store self) \<subseteq># mset (ordered_eigs_store new)"
    by (simp add: new_def set_ordered_eigs_def ordered_eigs_def)
  have same: "new = self\<lparr>ordered_eigs_store := ordered_eigs_store new\<rparr>"
    by (simp add: new_def set_ordered_eigs_def)
  show ?case
  proof (cases "\<not> dup \<and> m > 0")
    case False
    then have "confirm_minima K self k xtol ytol ms = Inr self'"
      using Cons.prems step by auto
    then show ?thesis by (rule Cons.IH)
  next
    case True
    show ?thesis
    proof (cases "int (length (ordered_eigs new)) \<ge> k")
      case stop: True
      then have "self' = new"
        using Cons.prems step True by auto
      with grow same show ?thesis by simp
    next
      case go: False
      then have "confirm_minima K new k xtol ytol ms = Inr self'"
        using Cons.prems step True by auto
      from Cons.IH [OF this] have
        g: "mset (ordered_eigs_store new) \<subseteq># mset (ordered_eigs_store self')" and
        e: "self' = new\<lparr>ordered_eigs_store := ordered_eigs_store self'\<rparr>"
        by simp_all
      have "self' = self\<lparr>ordered_eigs_store := ordered_eigs_store self'\<rparr>"
        by (subst e, subst same) simp
      with grow g show ?thesis
        using subset_mset.order_trans by blast
    qed
  qed
qed

lemma solve_loop_extends:
  assumes "solve_loop K xtol ytol k st = Some (Inr (self', fe))"
  shows "mset (ordered_eigs_store (fst st)) \<subseteq># mset (ordered_eigs_store self') \<and>
         \<not> int (length (ordered_eigs self')) < k \<and>
         (\<not> int (length (ordered_eigs (fst st))) < k \<longrightarrow>
            self' = fst st \<and> fe = fst (snd st))"
proof -
  have "\<forall>self' fe. y = Inr (self', fe) \<longrightarrow>
           mset (ordered_eigs_store (fst st)) \<subseteq># mset (ordered_eigs_store self') \<and>
           \<not> int (length (ordered_eigs self')) < k \<and>
           (\<not> int (length (ordered_eigs (fst st))) < k \<longrightarrow>
              self' = fst st \<and> fe = fst (snd st))"
    if "solve_loop K xtol ytol k st = Some y" for y
  proof (rule solve_loop.raw_induct [where P = "\<lambda>K xtol ytol k st y.
           \<forall>self' fe. y = Inr (self', fe) \<longrightarrow>
           mset (ordered_eigs_store (fst st)) \<subseteq># mset (ordered_eigs_store self') \<and>
           \<not> int (length (ordered_eigs self')) < k \<and>
           (\<not> int (length (ordered_eigs (fst st))) < k \<longrightarrow>
              self' = fst st \<and> fe = fst (snd st))", OF _ that], goal_cases)
    case (1 solve_loop K xtol ytol k st y)
    obtain self fevals ex s e l where st: "st = (self, fevals, ex, s, e, l)"
      by (cases st) auto
    show ?case
    proof (cases "int (length (ordered_eigs self)) < k")
      case False
      with 1(2) st show ?thesis by auto
    next
      case True
      show ?thesis
      proof (intro allI impI)
        fix self' fe assume y: "y = Inr (self', fe)"
        from 1(2) st True y obtain start1 end1 lev1 h minima fe1 self1 st1 where
          c: "confirm_minima K self k xtol ytol minima = Inr self1" and
          r: "solve_loop K xtol ytol k st1 = Some (Inr (self', fe))" and
          f: "fst st1 = self1"
          by (auto simp: Let_def split: option.splits sum.splits if_splits prod.splits)
        from 1(1) [OF r] f have
          a: "mset (ordered_eigs_store self1) \<subseteq># mset (ordered_eigs_store self')" and
          b: "\<not> int (length (ordered_eigs self')) < k"
          by auto
        from confirm_minima_extends [OF c] have
          "mset (ordered_eigs_store self) \<subseteq># mset (ordered_eigs_store self1)" by simp
        with a have "mset (ordered_eigs_store self) \<subseteq># mset (ordered_eigs_store self')"
          using subset_mset.order_trans by blast
        with b True st
        show "mset (ordered_eigs_store (fst st)) \<subseteq># mset (ordered_eigs_store self') \<and>
              \<not> int (length (ordered_eigs self')) < k \<and>
              (\<not> int (length (ordered_eigs (fst st))) < k \<longrightarrow>
                 self' = fst st \<and> fe = fst (snd st))"
          by simp
      qed
    qed
  qed
  with assms show ?thesis by blast
qed


lemma sorted_prefix_of_extension:
  fixes xs ys :: "real list"
  assumes "sorted xs" "sorted ys" "mset xs \<subseteq># mset ys"
    and "\<forall>x\<in>#(mset ys - mset xs). \<forall>y\<in>set xs. y \<le> x"
  shows "prefix xs ys"
proof -
  define zs where "zs = sorted_list_of_multiset (mset ys - mset xs)"
  have m: "mset (xs @ zs) = mset ys"
    using assms(3) by (simp add: zs_def)
  have "sorted zs" by (simp add: zs_def)
  moreover have "\<forall>x\<in>set xs. \<forall>z\<in>set zs. x \<le> z"
    using assms(4) by (auto simp: zs_def)
  ultimately have "sorted (xs @ zs)"
    using assms(1) by (simp add: sorted_append)
  with m have "sort ys = xs @ zs" by (intro properties_for_sort) simp_all
  moreover have "sort ys = ys" using assms(2) by (simp add: sort_key_id_if_sorted)
  ultimately have "ys = xs @ zs" by simp
  then show ?thesis by (simp add: prefix_def)
qed

lemma solve_ordered_eigs_result:
  assumes "solve_ordered_eigs K self k xtol ytol = Some (Inr (self', eigs, fe))"
  shows "solve_loop K xtol ytol k (self, 0, False, 0, 0, 1) = Some (Inr (self', fe)) \<and>
         eigs = ordered_eigs self'"
  using assms by (auto simp: solve_ordered_eigs_def split: option.splits sum.splits)

text \<open>Two calls on the unit square: \<open>k = 1\<close>, then \<open>k = 2\<close>.\<close>

lemma first_scan:
  assumes "0 \<le> xtol"
  shows "scan_window (found []) xtol False s0 e0 l0 =
     Some (576 / 100 * pi, weyl_k (found []) 1, 1, (weyl_k (found []) 1 - 576 / 100 * pi) / 20)"
proof (rule scan_window_first_level)
  show "576 / 100 * pi = (if ordered_eigs (found []) = [] then lambda_1_lb (found [])
                          else last (ordered_eigs (found [])))"
    by (simp add: found_fields)
  show "weyl_k (found []) 1 = weyl_k (found []) (length (ordered_eigs (found [])) + 1)"
    by (simp add: found_fields)
  have "576 / 100 * pi < 24" using pi_less_4 by argo
  moreover have "24 \<le> weyl_k (found []) 1" using found_weyl [of 1 "[]"] pi_ge_two by simp
  moreover have "0 \<le> 10 ^ 8 * xtol" using assms by simp
  ultimately show "\<not> weyl_k (found []) 1 + 10 ^ 8 * xtol < 576 / 100 * pi" by argo
qed

lemma second_scan:
  assumes "0 \<le> xtol"
  shows "scan_window (found [lam_b]) xtol False s0 e0 l0 =
     Some (lam_b, weyl_k (found [lam_b]) 2, 1, (weyl_k (found [lam_b]) 2 - lam_b) / 20)"
proof (rule scan_window_first_level)
  show "lam_b = (if ordered_eigs (found [lam_b]) = [] then lambda_1_lb (found [lam_b])
                 else last (ordered_eigs (found [lam_b])))"
    by (simp add: found_fields)
  show "weyl_k (found [lam_b]) 2
          = weyl_k (found [lam_b]) (length (ordered_eigs (found [lam_b])) + 1)"
    by (simp add: found_fields numeral_2_eq_2)
  have "24 \<le> weyl_k (found [lam_b]) 2" using found_weyl [of 2 "[lam_b]"] pi_ge_two by simp
  moreover have "0 \<le> 10 ^ 8 * xtol" using assms by simp
  ultimately show "\<not> weyl_k (found [lam_b]) 2 + 10 ^ 8 * xtol < lam_b"
    using demo_values(4) by argo
qed

lemma first_minima:
  "minsearch demo_lib f (576 / 100 * pi)
     (weyl_k (found []) 1 + (weyl_k (found []) 1 - 576 / 100 * pi) / 20)
     ((weyl_k (found []) 1 - 576 / 100 * pi) / 20) xtol = Inr ([lam_b], 0)"
proof -
  have w: "24 \<le> weyl_k (found []) 1" using found_weyl [of 1 "[]"] pi_ge_two by simp
  have "576 / 100 * pi < 24" using pi_less_4 by argo
  with w have "lam_b \<le> weyl_k (found []) 1 + (weyl_k (found []) 1 - 576 / 100 * pi) / 20"
    using demo_values(4) by argo
  moreover have "\<not> 576 / 100 * pi \<le> lam_a" using demo_values(1) by argo
  ultimately show ?thesis
    using demo_values(2) by (simp add: demo_lib_def demo_minsearch_def del: divide_le_eq_numeral1 le_divide_eq_numeral1)
qed

lemma second_minima:
  "minsearch demo_lib f (lam_b - (weyl_k (found [lam_b]) 2 - lam_b) / 20)
     (weyl_k (found [lam_b]) 2 + (weyl_k (found [lam_b]) 2 - lam_b) / 20)
     ((weyl_k (found [lam_b]) 2 - lam_b) / 20) xtol = Inr ([lam_a, lam_b], 0)"
proof -
  have w: "16 + 8 * pi \<le> weyl_k (found [lam_b]) 2" using found_weyl [of 2 "[lam_b]"] by simp
  have a: "lam_b - (weyl_k (found [lam_b]) 2 - lam_b) / 20 \<le> lam_a"
    using w pi_ge_two unfolding lam_a_def lam_b_def by argo
  have b: "lam_b \<le> weyl_k (found [lam_b]) 2 + (weyl_k (found [lam_b]) 2 - lam_b) / 20"
    using w pi_less_4 pi_ge_two unfolding lam_b_def by argo
  have c: "lam_b - (weyl_k (found [lam_b]) 2 - lam_b) / 20 \<le> lam_b"
    using a demo_values(3) by argo
  have d: "lam_a \<le> weyl_k (found [lam_b]) 2 + (weyl_k (found [lam_b]) 2 - lam_b) / 20"
    using b demo_values(3) by argo
  show ?thesis
    unfolding demo_lib_def demo_minsearch_def library.simps filter.simps
    using a b c d by (simp only: simp_thms if_True)
qed

lemma first_confirm:
  assumes "0 < ytol"
  shows "confirm_minima demo_lib (found []) 1 xtol ytol [lam_b] = Inr (found [lam_b])"
  using assms by (simp add: found_sines found_fields found_set Let_def)

lemma second_confirm:
  assumes "0 < ytol" "xtol \<le> 1 / 10"
  shows "confirm_minima demo_lib (found [lam_b]) 2 xtol ytol [lam_a, lam_b]
     = Inr (found [lam_a, lam_b])"
proof -
  have "\<not> \<bar>lam_a - lam_b\<bar> < xtol" using demo_values(5) assms(2) by argo
  then show ?thesis
    using assms(1) demo_values(3)
    by (simp add: found_sines found_fields found_set Let_def)
qed

lemma first_call:
  assumes "0 \<le> xtol" "0 < ytol"
  shows "solve_ordered_eigs demo_lib (found []) 1 xtol ytol
     = Some (Inr (found [lam_b], [lam_b], 0))"
proof -
  have "solve_loop demo_lib xtol ytol 1 (found [], 0, False, 0, 0, 1)
          = solve_loop demo_lib xtol ytol 1
              (found [lam_b], 0 + 0, False, 576 / 100 * pi, weyl_k (found []) 1, 1)"
    by (rule solve_loop_found [OF _ first_scan [OF assms(1)] _ first_minima
          first_confirm [OF assms(2)]])
       (simp_all add: found_fields)
  also have "\<dots> = Some (Inr (found [lam_b], 0))"
    by (simp add: solve_loop_done found_fields)
  finally show ?thesis by (simp add: solve_ordered_eigs_def found_fields)
qed

lemma second_call:
  assumes "0 \<le> xtol" "xtol \<le> 1 / 10" "0 < ytol"
  shows "solve_ordered_eigs demo_lib (found [lam_b]) 2 xtol ytol
     = Some (Inr (found [lam_a, lam_b], [lam_a, lam_b], 0))"
proof -
  have s: "sort [lam_a, lam_b] = [lam_a, lam_b]" using demo_values(3) by simp
  have "solve_loop demo_lib xtol ytol 2 (found [lam_b], 0, False, 0, 0, 1)
          = solve_loop demo_lib xtol ytol 2
              (found [lam_a, lam_b], 0 + 0, False,
               lam_b - (weyl_k (found [lam_b]) 2 - lam_b) / 20, weyl_k (found [lam_b]) 2, 1)"
    by (rule solve_loop_found [OF _ second_scan [OF assms(1)] _ second_minima
          second_confirm [OF assms(3) assms(2)]])
       (use demo_values(3) in \<open>simp_all add: found_fields\<close>)
  also have "\<dots> = Some (Inr (found [lam_a, lam_b], 0))"
    using demo_values(3) by (simp add: solve_loop_done found_fields)
  finally show ?thesis
    using demo_values(3) by (simp add: solve_ordered_eigs_def found_fields)
qed


lemma solve_ordered_eigs_satisfied:
  assumes "k \<le> int (length (ordered_eigs self))"
  shows "solve_ordered_eigs K self k xtol ytol = Some (Inr (self, ordered_eigs self, 0))"
  using assms by (simp add: solve_ordered_eigs_def solve_loop_done)

text \<open>A call for two eigenvalues on the registry \<open>[lam_a]\<close>.\<close>

lemma third_scan:
  assumes "0 \<le> xtol"
  shows "scan_window (found [lam_a]) xtol False s0 e0 l0 =
     Some (lam_a, weyl_k (found [lam_a]) 2, 1, (weyl_k (found [lam_a]) 2 - lam_a) / 20)"
proof (rule scan_window_first_level)
  show "lam_a = (if ordered_eigs (found [lam_a]) = [] then lambda_1_lb (found [lam_a])
                 else last (ordered_eigs (found [lam_a])))"
    by (simp add: found_fields)
  show "weyl_k (found [lam_a]) 2
          = weyl_k (found [lam_a]) (length (ordered_eigs (found [lam_a])) + 1)"
    by (simp add: found_fields numeral_2_eq_2)
  have "24 \<le> weyl_k (found [lam_a]) 2" using found_weyl [of 2 "[lam_a]"] pi_ge_two by simp
  moreover have "0 \<le> 10 ^ 8 * xtol" using assms by simp
  ultimately show "\<not> weyl_k (found [lam_a]) 2 + 10 ^ 8 * xtol < lam_a"
    using demo_values(3,4) by argo
qed

lemma third_minima:
  "minsearch demo_lib f (lam_a - (weyl_k (found [lam_a]) 2 - lam_a) / 20)
     (weyl_k (found [lam_a]) 2 + (weyl_k (found [lam_a]) 2 - lam_a) / 20)
     ((weyl_k (found [lam_a]) 2 - lam_a) / 20) xtol = Inr ([lam_a, lam_b], 0)"
proof -
  have w: "24 \<le> weyl_k (found [lam_a]) 2" using found_weyl [of 2 "[lam_a]"] pi_ge_two by simp
  have a: "lam_a - (weyl_k (found [lam_a]) 2 - lam_a) / 20 \<le> lam_a"
    using w demo_values(3,4) by argo
  have b: "lam_b \<le> weyl_k (found [lam_a]) 2 + (weyl_k (found [lam_a]) 2 - lam_a) / 20"
    using w demo_values(3,4) by argo
  have c: "lam_a - (weyl_k (found [lam_a]) 2 - lam_a) / 20 \<le> lam_b"
    using a demo_values(3) by argo
  have d: "lam_a \<le> weyl_k (found [lam_a]) 2 + (weyl_k (found [lam_a]) 2 - lam_a) / 20"
    using b demo_values(3) by argo
  show ?thesis
    unfolding demo_lib_def demo_minsearch_def library.simps filter.simps
    using a b c d by (simp only: simp_thms if_True)
qed

lemma third_confirm:
  assumes "0 < ytol" "0 < xtol" "xtol \<le> 1 / 10"
  shows "confirm_minima demo_lib (found [lam_a]) 2 xtol ytol [lam_a, lam_b]
     = Inr (found [lam_a, lam_b])"
proof -
  have "\<not> \<bar>lam_b - lam_a\<bar> < xtol" using demo_values(5) assms(3) by argo
  then show ?thesis
    using assms(1,2) demo_values(3)
    by (simp add: found_sines found_fields found_set Let_def)
qed

lemma third_call:
  assumes "0 < xtol" "xtol \<le> 1 / 10" "0 < ytol"
  shows "solve_ordered_eigs demo_lib (found [lam_a]) 2 xtol ytol
     = Some (Inr (found [lam_a, lam_b], [lam_a, lam_b], 0))"
proof -
  have x: "0 \<le> xtol" using assms(1) by simp
  have "solve_loop demo_lib xtol ytol 2 (found [lam_a], 0, False, 0, 0, 1)
          = solve_loop demo_lib xtol ytol 2
              (found [lam_a, lam_b], 0 + 0, False,
               lam_a - (weyl_k (found [lam_a]) 2 - lam_a) / 20, weyl_k (found [lam_a]) 2, 1)"
    by (rule solve_loop_found [OF _ third_scan [OF x] _ third_minima
          third_confirm [OF assms(3) assms(1) assms(2)]])
       (use demo_values(3) in \<open>simp_all add: found_fields\<close>)
  also have "\<dots> = Some (Inr (found [lam_a, lam_b], 0))"
    using demo_values(3) by (simp add: solve_loop_done found_fields)
  finally show ?thesis
    using demo_values(3) by (simp add: solve_ordered_eigs_def found_fields)
qed

text \<open>
  C3 (as amended). A call that returns gives the registry of the object it returns,
  sorted in non-decreasing order, with at least the number of entries asked for and
  with every entry the registry held before. A following call on that object that asks
  for no more than the registry holds returns at once, with the same object, the same
  sequence and no evaluation: nothing is scanned or recomputed. A following call that
  returns gives again a sorted sequence of at least the length asked for that holds
  every entry of the first result with its multiplicity (the registry is only extended);
  the first result is a prefix of it when every entry the second call adds is at least
  as large as the entries of the first. Whether a call that has to scan returns depends
  on what \<open>minsearch\<close> finds.
\<close>

theorem solve_ordered_eigs_extends:
  assumes c1: "solve_ordered_eigs K self k xtol ytol = Some (Inr (self1, eigs1, fe1))"
  shows "sorted eigs1 \<and> k \<le> int (length eigs1) \<and>
         eigs1 = ordered_eigs self1 \<and>
         mset (ordered_eigs self) \<subseteq># mset eigs1 \<and>
         (k' \<le> int (length eigs1) \<longrightarrow>
            solve_ordered_eigs K self1 k' xtol' ytol' = Some (Inr (self1, eigs1, 0))) \<and>
         (\<forall>self2 eigs2 fe2.
            solve_ordered_eigs K self1 k' xtol' ytol' = Some (Inr (self2, eigs2, fe2)) \<longrightarrow>
            sorted eigs2 \<and> k' \<le> int (length eigs2) \<and>
            eigs2 = ordered_eigs self2 \<and>
            mset eigs1 \<subseteq># mset eigs2 \<and>
            ((\<forall>x\<in>#(mset eigs2 - mset eigs1). \<forall>y\<in>set eigs1. y \<le> x) \<longrightarrow>
               prefix eigs1 eigs2))"
proof -
  from solve_ordered_eigs_result [OF c1] have
    l1: "solve_loop K xtol ytol k (self, 0, False, 0, 0, 1) = Some (Inr (self1, fe1))" and
    e1: "eigs1 = ordered_eigs self1" by simp_all
  have s1: "sorted eigs1" by (simp add: e1 ordered_eigs_def)
  from solve_loop_extends [OF l1] have
    a1: "mset (ordered_eigs_store self) \<subseteq># mset (ordered_eigs_store self1)" and
    b1: "k \<le> int (length eigs1)"
    by (simp_all add: e1)
  have m0: "mset (ordered_eigs self) \<subseteq># mset eigs1"
    using a1 by (simp add: e1 ordered_eigs_def)
  have r: "solve_ordered_eigs K self1 k' xtol' ytol' = Some (Inr (self1, eigs1, 0))"
    if "k' \<le> int (length eigs1)"
    using that unfolding e1 by (rule solve_ordered_eigs_satisfied)
  have second: "sorted eigs2 \<and> k' \<le> int (length eigs2) \<and> eigs2 = ordered_eigs self2 \<and>
            mset eigs1 \<subseteq># mset eigs2 \<and>
            ((\<forall>x\<in>#(mset eigs2 - mset eigs1). \<forall>y\<in>set eigs1. y \<le> x) \<longrightarrow>
               prefix eigs1 eigs2)"
    if c2: "solve_ordered_eigs K self1 k' xtol' ytol' = Some (Inr (self2, eigs2, fe2))"
    for self2 eigs2 fe2
  proof -
    from solve_ordered_eigs_result [OF c2] have
      l2: "solve_loop K xtol' ytol' k' (self1, 0, False, 0, 0, 1) = Some (Inr (self2, fe2))" and
      e2: "eigs2 = ordered_eigs self2" by simp_all
    have s2: "sorted eigs2" by (simp add: e2 ordered_eigs_def)
    from solve_loop_extends [OF l2] have
      a2: "mset (ordered_eigs_store self1) \<subseteq># mset (ordered_eigs_store self2)" and
      b2: "k' \<le> int (length eigs2)"
      by (simp_all add: e2)
    have m: "mset eigs1 \<subseteq># mset eigs2"
      using a2 by (simp add: e1 e2 ordered_eigs_def)
    have p: "(\<forall>x\<in>#(mset eigs2 - mset eigs1). \<forall>y\<in>set eigs1. y \<le> x) \<longrightarrow> prefix eigs1 eigs2"
      using sorted_prefix_of_extension [OF s1 s2 m] by blast
    from s2 b2 e2 m p show ?thesis by simp
  qed
  from s1 b1 e1 m0 r second show ?thesis by blast
qed

theorem solve_ordered_eigs_extends_witness:
  "solve_ordered_eigs demo_lib demo_evp 1 (1 / 10 ^ 8) (1 / 10 ^ 5)
     = Some (Inr (found [lam_b], [lam_b], 0)) \<and>
   solve_ordered_eigs demo_lib (found [lam_b]) 1 (1 / 10 ^ 8) (1 / 10 ^ 5)
     = Some (Inr (found [lam_b], [lam_b], 0)) \<and>
   solve_ordered_eigs demo_lib (found [lam_b]) 2 (1 / 10 ^ 8) (1 / 10 ^ 5)
     = Some (Inr (found [lam_a, lam_b], [lam_a, lam_b], 0)) \<and>
   sorted [lam_a, lam_b] \<and> mset [lam_b] \<subseteq># mset [lam_a, lam_b] \<and>
   solve_ordered_eigs demo_lib (found [lam_a]) 1 (1 / 10 ^ 8) (1 / 10 ^ 5)
     = Some (Inr (found [lam_a], [lam_a], 0)) \<and>
   solve_ordered_eigs demo_lib (found [lam_a]) 2 (1 / 10 ^ 8) (1 / 10 ^ 5)
     = Some (Inr (found [lam_a, lam_b], [lam_a, lam_b], 0)) \<and>
   prefix [lam_a] [lam_a, lam_b]"
proof -
  have c1: "solve_ordered_eigs demo_lib (found []) 1 (1 / 10 ^ 8) (1 / 10 ^ 5)
              = Some (Inr (found [lam_b], [lam_b], 0))"
    by (rule first_call) simp_all
  have c2: "solve_ordered_eigs demo_lib (found [lam_b]) 2 (1 / 10 ^ 8) (1 / 10 ^ 5)
              = Some (Inr (found [lam_a, lam_b], [lam_a, lam_b], 0))"
    by (rule second_call) simp_all
  note t1 = solve_ordered_eigs_extends [OF c1, of 1 "1 / 10 ^ 8" "1 / 10 ^ 5"]
  note t2 = solve_ordered_eigs_extends [OF c1, of 2 "1 / 10 ^ 8" "1 / 10 ^ 5"]
  have a: "solve_ordered_eigs demo_lib (found [lam_b]) 1 (1 / 10 ^ 8) (1 / 10 ^ 5)
     = Some (Inr (found [lam_b], [lam_b], 0))"
    using t1 by simp
  have b: "sorted [lam_a, lam_b] \<and> mset [lam_b] \<subseteq># mset [lam_a, lam_b]"
    using t2 c2 by blast
  have d1: "solve_ordered_eigs demo_lib (found [lam_a]) 1 (1 / 10 ^ 8) (1 / 10 ^ 5)
              = Some (Inr (found [lam_a], [lam_a], 0))"
    using solve_ordered_eigs_satisfied [of 1 "found [lam_a]" demo_lib "1 / 10 ^ 8" "1 / 10 ^ 5"]
    by (simp add: found_fields)
  have d2: "solve_ordered_eigs demo_lib (found [lam_a]) 2 (1 / 10 ^ 8) (1 / 10 ^ 5)
              = Some (Inr (found [lam_a, lam_b], [lam_a, lam_b], 0))"
    by (rule third_call) simp_all
  have le: "\<forall>x\<in>#(mset [lam_a, lam_b] - mset [lam_a]). \<forall>y\<in>set [lam_a]. y \<le> x"
    using demo_values(3) by simp
  note t3 = solve_ordered_eigs_extends [OF d1, of 2 "1 / 10 ^ 8" "1 / 10 ^ 5"]
  have p: "prefix [lam_a] [lam_a, lam_b]"
    using t3 d2 le by blast
  from c1 a c2 b d1 d2 p show ?thesis by (simp only: found_empty simp_thms)
qed

text \<open>
  The claim as stated fails: the second scan starts one step below the eigenvalue
  confirmed by the first call (the ghost point of line 526), finds the minimum \<open>lam_a\<close>
  there, and the sorted registry then holds it before \<open>lam_b\<close>.
\<close>

theorem solve_ordered_eigs_prefix_counterexample:
  "solve_ordered_eigs demo_lib demo_evp 1 (1 / 10 ^ 8) (1 / 10 ^ 5)
     = Some (Inr (found [lam_b], [lam_b], 0)) \<and>
   solve_ordered_eigs demo_lib (found [lam_b]) 2 (1 / 10 ^ 8) (1 / 10 ^ 5)
     = Some (Inr (found [lam_a, lam_b], [lam_a, lam_b], 0)) \<and>
   \<not> prefix [lam_b] [lam_a, lam_b]"
proof -
  have "lam_a \<noteq> lam_b" using demo_values(5) by auto
  then have "\<not> prefix [lam_b] [lam_a, lam_b]" by simp
  with first_call [of "1 / 10 ^ 8" "1 / 10 ^ 5"] second_call [of "1 / 10 ^ 8" "1 / 10 ^ 5"]
  show ?thesis by (simp add: found_empty)
qed


subsection \<open>The first eigenvalue and the lower bound\<close>

text \<open>
  While the registry is empty the scans start at the lower bound and move upwards, and
  the first minimum that is confirmed ends a search for one eigenvalue.
\<close>

lemma ordered_eigs_set:
  "ordered_eigs (set_ordered_eigs self arr) = sort arr"
  by (simp add: ordered_eigs_def set_ordered_eigs_def sort_key_id_if_sorted)

lemma sort_replicate: "sort (replicate m (x::real)) = replicate m x"
  by (simp add: sort_key_id_if_sorted sorted_replicate)

lemma confirm_minima_first:
  assumes "ordered_eigs self = []"
    and "confirm_minima K self 1 xtol ytol ms = Inr self'"
  shows "ordered_eigs self' = [] \<or>
         (\<exists>x\<in>set ms. \<exists>m>0. ordered_eigs self' = replicate m x)"
  using assms
proof (induction ms)
  case Nil
  then show ?case by simp
next
  case (Cons x ms)
  from Cons.prems(2) obtain sines where
    s: "subspace_sines K self x None True = Inr sines"
    by (auto split: sum.splits)
  define m where "m = length (filter (\<lambda>s. s < ytol) sines)"
  define new where "new = set_ordered_eigs self (ordered_eigs self @ replicate m x)"
  have dup: "False = (if length (ordered_eigs self) > 0
                then Min (set (map (\<lambda>e. \<bar>x - e\<bar>) (ordered_eigs self))) < xtol else False)"
    using Cons.prems(1) by simp
  note step = confirm_minima_Cons [OF s m_def dup new_def]
  have n: "ordered_eigs new = replicate m x"
    using Cons.prems(1) by (simp add: new_def ordered_eigs_set sort_replicate)
  show ?case
  proof (cases "m > 0")
    case True
    then have "self' = new" using Cons.prems(2) step n by simp
    with n True show ?thesis by auto
  next
    case False
    then have "confirm_minima K self 1 xtol ytol ms = Inr self'"
      using Cons.prems(2) step by simp
    from Cons.IH [OF Cons.prems(1) this] show ?thesis by auto
  qed
qed

lemma store_update_fields:
  assumes "s = self\<lparr>ordered_eigs_store := st\<rparr>"
  shows "lambda_1_lb s = lambda_1_lb self" "weyl_k s k = weyl_k self k"
  using assms by (simp_all add: weyl_k_def)

lemma scan_window_empty_registry:
  assumes e: "ordered_eigs s = []"
    and xt: "0 \<le> xtol"
    and geo: "lambda_1_lb s \<le> weyl_k s 1"
    and inv: "ex \<longrightarrow> lambda_1_lb s \<le> st0 \<and> st0 \<le> en0"
    and w: "scan_window s xtol ex st0 en0 l0 = Some (start1, end1, lev1, h)"
  shows "lambda_1_lb s \<le> start1 \<and> start1 \<le> end1 \<and> 0 \<le> h"
proof (cases ex)
  case True
  with w have "start1 = st0" "end1 = en0" "h = (en0 - st0) / (20 * real l0)"
    by (auto simp: scan_window_def Let_def)
  with inv True show ?thesis by simp
next
  case False
  have "0 \<le> 10 ^ 8 * xtol" using xt by simp
  with geo have "\<not> weyl_k s 1 + 10 ^ 8 * xtol < lambda_1_lb s" by linarith
  then have "escalate s 0 xtol (lambda_1_lb s) 1 (weyl_k s (0 + 1)) = Some (weyl_k s 1, 1)"
    by (simp add: escalate_stop)
  with w False e have "start1 = lambda_1_lb s" "end1 = weyl_k s 1"
    "h = (weyl_k s 1 - lambda_1_lb s) / 20"
    by (auto simp: scan_window_def Let_def)
  with geo show ?thesis by simp
qed

lemma solve_loop_first_bound:
  assumes run: "solve_loop K xtol ytol 1 st = Some (Inr (self', fe))"
    and xt: "0 \<le> xtol"
    and ms: "\<forall>f a b h ms fe. a \<le> b \<and> minsearch K f a b h xtol = Inr (ms, fe) \<longrightarrow>
               (\<forall>x\<in>set ms. a - xtol \<le> x)"
    and geo: "lambda_1_lb self \<le> weyl_k self 1"
    and same: "fst st = self\<lparr>ordered_eigs_store := ordered_eigs_store (fst st)\<rparr>"
    and low: "\<forall>x\<in>set (ordered_eigs (fst st)). lambda_1_lb self - xtol \<le> x"
    and win: "ordered_eigs (fst st) = [] \<and> fst (snd (snd st)) \<longrightarrow>
                lambda_1_lb self \<le> fst (snd (snd (snd st))) \<and>
                fst (snd (snd (snd st))) \<le> fst (snd (snd (snd (snd st))))"
  shows "ordered_eigs self' \<noteq> [] \<and> (\<forall>x\<in>set (ordered_eigs self'). lambda_1_lb self - xtol \<le> x)"
proof -
  define lb where "lb = lambda_1_lb self"
  define Inv where "Inv = (\<lambda>st :: PolygonEVP \<times> nat \<times> bool \<times> real \<times> real \<times> nat.
      fst st = self\<lparr>ordered_eigs_store := ordered_eigs_store (fst st)\<rparr> \<and>
      (\<forall>x\<in>set (ordered_eigs (fst st)). lb - xtol \<le> x) \<and>
      (ordered_eigs (fst st) = [] \<and> fst (snd (snd st)) \<longrightarrow>
         lb \<le> fst (snd (snd (snd st))) \<and>
         fst (snd (snd (snd st))) \<le> fst (snd (snd (snd (snd st))))))"
  have "K' = K \<and> xtol' = xtol \<and> k' = 1 \<and> Inv st' \<longrightarrow>
        (\<forall>self' fe. y = Inr (self', fe) \<longrightarrow>
           ordered_eigs self' \<noteq> [] \<and> (\<forall>x\<in>set (ordered_eigs self'). lb - xtol \<le> x))"
    if "solve_loop K' xtol' ytol' k' st' = Some y" for K' xtol' ytol' k' st' y
  proof (rule solve_loop.raw_induct [where P = "\<lambda>K' xtol' ytol' k' st' y.
        K' = K \<and> xtol' = xtol \<and> k' = 1 \<and> Inv st' \<longrightarrow>
        (\<forall>self' fe. y = Inr (self', fe) \<longrightarrow>
           ordered_eigs self' \<noteq> [] \<and> (\<forall>x\<in>set (ordered_eigs self'). lb - xtol \<le> x))",
        OF _ that], goal_cases)
    case (1 loop K' xtol' ytol' k' st' y)
    show ?case
    proof (intro impI allI)
      fix self' fe
      assume pre: "K' = K \<and> xtol' = xtol \<and> k' = 1 \<and> Inv st'" and y: "y = Inr (self', fe)"
      obtain s fevals ex st0 en0 l0 where st': "st' = (s, fevals, ex, st0, en0, l0)"
        by (cases st') auto
      from pre st' have
        i1: "s = self\<lparr>ordered_eigs_store := ordered_eigs_store s\<rparr>" and
        i2: "\<forall>x\<in>set (ordered_eigs s). lb - xtol \<le> x" and
        i3: "ordered_eigs s = [] \<and> ex \<longrightarrow> lb \<le> st0 \<and> st0 \<le> en0"
        by (simp_all add: Inv_def)
      have lbs: "lambda_1_lb s = lb" and ws: "weyl_k s 1 = weyl_k self 1"
        using store_update_fields [OF i1] by (simp_all add: lb_def)
      show "ordered_eigs self' \<noteq> [] \<and> (\<forall>x\<in>set (ordered_eigs self'). lb - xtol \<le> x)"
      proof (cases "ordered_eigs s = []")
        case False
        then have "y = Inr (s, fevals)" using 1(2) pre st' by simp
        with y False i2 show ?thesis by simp
      next
        case True
        from 1(2) pre st' True y obtain start1 end1 lev1 h minima fe1 s1 where
          w: "scan_window s xtol ex st0 en0 l0 = Some (start1, end1, lev1, h)" and
          m: "minsearch K (obj K s) start1 (end1 + h) h xtol = Inr (minima, fe1)" and
          c: "confirm_minima K s 1 xtol ytol' minima = Inr s1" and
          r: "loop K xtol ytol' 1
                (if length (ordered_eigs s1) = 0
                 then (s1, fevals + fe1, True, end1, end1 + (end1 - start1), lev1)
                 else (s1, fevals + fe1, False, start1, end1, lev1))
              = Some (Inr (self', fe))"
          by (auto simp: Let_def split: option.splits sum.splits if_splits prod.splits)
        have g: "lambda_1_lb s \<le> weyl_k s 1" using geo lbs ws by (simp add: lb_def)
        have i3': "ex \<longrightarrow> lambda_1_lb s \<le> st0 \<and> st0 \<le> en0" using i3 True lbs by simp
        from scan_window_empty_registry [OF True xt g i3' w] have
          b: "lb \<le> start1" "start1 \<le> end1" "0 \<le> h" using lbs by simp_all
        then have "start1 \<le> end1 + h" by simp
        with ms m have mins: "\<forall>x\<in>set minima. start1 - xtol \<le> x" by blast
        from confirm_minima_extends [OF c] have
          s1s: "s1 = s\<lparr>ordered_eigs_store := ordered_eigs_store s1\<rparr>" by simp
        have s1: "s1 = self\<lparr>ordered_eigs_store := ordered_eigs_store s1\<rparr>"
          by (subst s1s, subst i1) simp
        from confirm_minima_first [OF True c] consider
          (none) "ordered_eigs s1 = []" |
          (some) x m where "x \<in> set minima" "m > 0" "ordered_eigs s1 = replicate m x"
          by blast
        then show ?thesis
        proof cases
          case none
          then have "Inv (s1, fevals + fe1, True, end1, end1 + (end1 - start1), lev1)"
            using s1 b by (simp add: Inv_def)
          moreover have "loop K xtol ytol' 1
              (s1, fevals + fe1, True, end1, end1 + (end1 - start1), lev1)
              = Some (Inr (self', fe))"
            using r none by simp
          ultimately show ?thesis using 1(1) by blast
        next
          case some
          have "lb - xtol \<le> x" using mins some(1) b(1) by fastforce
          then have "Inv (s1, fevals + fe1, False, start1, end1, lev1)"
            using s1 some by (simp add: Inv_def)
          moreover have "loop K xtol ytol' 1 (s1, fevals + fe1, False, start1, end1, lev1)
              = Some (Inr (self', fe))"
            using r some by simp
          ultimately show ?thesis using 1(1) by blast
        qed
      qed
    qed
  qed
  from this [OF run] same low win show ?thesis
    by (simp add: Inv_def lb_def)
qed

lemma quotient_by_square: "0 < (A::real) \<Longrightarrow> c * A / A\<^sup>2 = c / A"
  by (simp add: power2_eq_square)

lemma isoperimetric_quotient:
  assumes A: "0 < (A::real)" and iso: "4 * pi * A \<le> P\<^sup>2"
  shows "4 * pi / A \<le> (P / A)\<^sup>2"
proof -
  have "4 * pi * A / A\<^sup>2 \<le> P\<^sup>2 / A\<^sup>2"
    using iso by (rule divide_right_mono) simp
  then show ?thesis using A by (simp add: quotient_by_square power_divide)
qed

lemma lower_bound_below_twice:
  assumes A: "0 < (A::real)"
  shows "576 / 100 * pi / A \<le> 4 * pi / A + 4 * pi / A"
proof -
  have "576 / 100 * pi \<le> 8 * pi" by simp
  then have "576 / 100 * pi / A \<le> 8 * pi / A"
    using A by (intro divide_right_mono) simp_all
  also have "8 * pi / A = 4 * pi / A + 4 * pi / A"
    by (simp add: add_divide_distrib [symmetric])
  finally show ?thesis .
qed

lemma weyl_k_1_above_lower_bound:
  assumes A: "0 < area self" and P: "0 \<le> perimiter self"
    and iso: "4 * pi * area self \<le> (perimiter self)\<^sup>2"
  shows "576 / 100 * pi / area self \<le> weyl_k self 1"
proof -
  have a: "4 * pi / area self \<le> (perimiter self / area self)\<^sup>2"
    using A iso by (rule isoperimetric_quotient)
  have b: "(perimiter self / area self)\<^sup>2 + 4 * pi * real 1 / area self \<le> weyl_k self 1"
    by (rule weyl_k_lower [OF A P])
  have c: "4 * pi * real 1 / area self = 4 * pi / area self" by simp
  have d: "576 / 100 * pi / area self \<le> 4 * pi / area self + 4 * pi / area self"
    using A by (rule lower_bound_below_twice)
  from a b c d show ?thesis by linarith
qed

text \<open>
  C4 (as amended). On an instance with an empty registry, positive area and a perimeter
  that satisfies the isoperimetric inequality, the first scan starts at the lower bound
  \<open>5.76 pi / area\<close> (there is no ghost point) and ends at \<open>weyl_k 1\<close>; if
  \<open>minsearch\<close> returns no point more than \<open>xtol\<close> below the start of its bracket, every
  eigenvalue that \<open>solve_ordered_eigs\<close> returns for \<open>k = 1\<close> is at least
  \<open>5.76 pi / area - xtol\<close>.
\<close>

theorem first_eigenvalue_lower_bound:
  assumes fresh: "ordered_eigs self = []"
    and lb: "lambda_1_lb self = 576 / 100 * pi / area self"
    and A: "0 < area self" and P: "0 \<le> perimiter self"
    and iso: "4 * pi * area self \<le> (perimiter self)\<^sup>2"
    and xt: "0 \<le> xtol"
    and ms: "\<forall>f a b h ms fe. a \<le> b \<and> minsearch K f a b h xtol = Inr (ms, fe) \<longrightarrow>
               (\<forall>x\<in>set ms. a - xtol \<le> x)"
    and run: "solve_ordered_eigs K self 1 xtol ytol = Some (Inr (self', eigs, fe))"
  shows "scan_window self xtol False s0 e0 l0
           = Some (576 / 100 * pi / area self, weyl_k self 1, 1,
                   (weyl_k self 1 - 576 / 100 * pi / area self) / 20) \<and>
         eigs \<noteq> [] \<and> (\<forall>x\<in>set eigs. 576 / 100 * pi / area self - xtol \<le> x)"
proof -
  have geo: "lambda_1_lb self \<le> weyl_k self 1"
    using weyl_k_1_above_lower_bound [OF A P iso] lb by simp
  have "0 \<le> 10 ^ 8 * xtol" using xt by simp
  with geo have stop: "\<not> weyl_k self 1 + 10 ^ 8 * xtol < 576 / 100 * pi / area self"
    using lb by linarith
  have scan: "scan_window self xtol False s0 e0 l0
           = Some (576 / 100 * pi / area self, weyl_k self 1, 1,
                   (weyl_k self 1 - 576 / 100 * pi / area self) / 20)"
    by (rule scan_window_first_level) (use fresh lb stop in simp_all)
  from solve_ordered_eigs_result [OF run] have
    l: "solve_loop K xtol ytol 1 (self, 0, False, 0, 0, 1) = Some (Inr (self', fe))" and
    e: "eigs = ordered_eigs self'" by simp_all
  have "ordered_eigs self' \<noteq> [] \<and>
        (\<forall>x\<in>set (ordered_eigs self'). lambda_1_lb self - xtol \<le> x)"
    by (rule solve_loop_first_bound [OF l xt ms geo]) (use fresh in simp_all)
  with scan e lb show ?thesis by simp
qed

lemma demo_minsearch_in_bracket:
  assumes "0 \<le> xtol"
  shows "\<forall>f a b h ms fe. a \<le> b \<and> minsearch demo_lib f a b h xtol = Inr (ms, fe) \<longrightarrow>
           (\<forall>x\<in>set ms. a - xtol \<le> x)"
  using assms by (auto simp: demo_lib_def demo_minsearch_def)

theorem first_eigenvalue_lower_bound_witness:
  "solve_ordered_eigs demo_lib demo_evp 1 (1 / 10 ^ 8) (1 / 10 ^ 5)
     = Some (Inr (found [lam_b], [lam_b], 0)) \<and>
   576 / 100 * pi / area demo_evp - 1 / 10 ^ 8 \<le> lam_b"
proof -
  have run: "solve_ordered_eigs demo_lib demo_evp 1 (1 / 10 ^ 8) (1 / 10 ^ 5)
     = Some (Inr (found [lam_b], [lam_b], 0))"
    using first_call [of "1 / 10 ^ 8" "1 / 10 ^ 5"] by (simp add: found_empty)
  have fresh: "ordered_eigs demo_evp = []" by (simp add: ordered_eigs_def demo_evp_def)
  have lb: "lambda_1_lb demo_evp = 576 / 100 * pi / area demo_evp"
    and A: "0 < area demo_evp" and P: "0 \<le> perimiter demo_evp"
    by (simp_all add: demo_evp_def)
  have iso: "4 * pi * area demo_evp \<le> (perimiter demo_evp)\<^sup>2"
    using pi_less_4 by (simp add: demo_evp_def)
  have xt: "(0::real) \<le> 1 / 10 ^ 8" by simp
  from first_eigenvalue_lower_bound
         [OF fresh lb A P iso xt demo_minsearch_in_bracket [OF xt] run]
  have "576 / 100 * pi / area demo_evp - 1 / 10 ^ 8 \<le> lam_b" by simp
  with run show ?thesis by simp
qed

text \<open>
  The claim as stated fails for \<open>k = 2\<close>: once \<open>lam_b\<close> is confirmed the next scan starts
  one step below it (line 526), which is below the lower bound, and confirms \<open>lam_a\<close>.
\<close>

lemma first_confirm_two:
  assumes "0 < ytol"
  shows "confirm_minima demo_lib (found []) 2 xtol ytol [lam_b] = Inr (found [lam_b])"
  using assms by (simp add: found_sines found_fields found_set Let_def)

lemma single_call:
  assumes "0 \<le> xtol" "xtol \<le> 1 / 10" "0 < ytol"
  shows "solve_ordered_eigs demo_lib (found []) 2 xtol ytol
     = Some (Inr (found [lam_a, lam_b], [lam_a, lam_b], 0))"
proof -
  have "solve_loop demo_lib xtol ytol 2 (found [], 0, False, 0, 0, 1)
          = solve_loop demo_lib xtol ytol 2
              (found [lam_b], 0 + 0, False, 576 / 100 * pi, weyl_k (found []) 1, 1)"
    by (rule solve_loop_found [OF _ first_scan [OF assms(1)] _ first_minima
          first_confirm_two [OF assms(3)]])
       (simp_all add: found_fields)
  also have "\<dots> = solve_loop demo_lib xtol ytol 2
              (found [lam_a, lam_b], 0 + 0 + 0, False,
               lam_b - (weyl_k (found [lam_b]) 2 - lam_b) / 20, weyl_k (found [lam_b]) 2, 1)"
    by (rule solve_loop_found [OF _ second_scan [OF assms(1)] _ second_minima
          second_confirm [OF assms(3) assms(2)]])
       (use demo_values(3) in \<open>simp_all add: found_fields\<close>)
  also have "\<dots> = Some (Inr (found [lam_a, lam_b], 0))"
    using demo_values(3) by (simp add: solve_loop_done found_fields)
  finally show ?thesis
    using demo_values(3) by (simp add: solve_ordered_eigs_def found_fields)
qed

theorem first_eigenvalue_lower_bound_counterexample:
  "solve_ordered_eigs demo_lib demo_evp 2 (1 / 10 ^ 8) (1 / 10 ^ 5)
     = Some (Inr (found [lam_a, lam_b], [lam_a, lam_b], 0)) \<and>
   lam_a < 576 / 100 * pi / area demo_evp - 1 / 10 ^ 8"
proof -
  have "(2::real) \<le> pi" by (rule pi_ge_two)
  then have "lam_a < 576 / 100 * pi / area demo_evp - 1 / 10 ^ 8"
    by (simp add: lam_a_def demo_evp_def)
  with single_call [of "1 / 10 ^ 8" "1 / 10 ^ 5"] show ?thesis
    by (simp add: found_empty)
qed

end
